theory Spec2Isabelle
  imports Main
begin

section \<open>Strings and numbers of the host language\<close>

text \<open>
  Strings are \<^typ>\<open>string\<close>; every string the component handles is ASCII (style property
  names, CSS lengths, event names).  \<open>Array.prototype.join\<close> puts the separator between
  the elements and yields the empty string for an empty array.
\<close>

fun join :: "string \<Rightarrow> string list \<Rightarrow> string" where
  "join sep [] = []"
| "join sep [x] = x"
| "join sep (x # y # ys) = x @ sep @ join sep (y # ys)"

text \<open>
  A template literal renders a Number with Number-to-string, which for a safe integer
  (one between \<open>-2\<^sup>5\<^sup>3\<close> and \<open>2\<^sup>5\<^sup>3\<close>, both excluded) is its decimal numeral, with a
  minus sign when it is negative.  \<open>offsetHeight\<close> and \<open>offsetWidth\<close> are
  non-negative integers of 32 bits.
\<close>

definition digit_char :: "nat \<Rightarrow> char" where
  "digit_char n = char_of (48 + n)"

function string_of_nat :: "nat \<Rightarrow> string" where
  "string_of_nat n =
     (if n < 10 then [digit_char n]
      else string_of_nat (n div 10) @ [digit_char (n mod 10)])"
  by pat_completeness auto
termination
  by (relation "measure id") auto

declare string_of_nat.simps [simp del]

definition string_of_int :: "int \<Rightarrow> string" where
  "string_of_int i = (if i < 0 then CHR ''-'' # string_of_nat (nat (- i)) else string_of_nat (nat i))"

section \<open>convertToCssProperty\<close>

text \<open>
  The regular expression \<open>/([A-Z])/g\<close> matches the 26 ASCII capitals;
  \<open>style.match\<close> returns them in order of occurrence (\<open>null\<close>, here the empty
  list, when there is none).
\<close>

definition is_upper :: "char \<Rightarrow> bool" where
  "is_upper c = (65 \<le> (of_char c :: nat) \<and> (of_char c :: nat) \<le> 90)"

definition toLowerCase :: "char \<Rightarrow> char" where
  "toLowerCase c = (if is_upper c then char_of ((of_char c :: nat) + 32) else c)"

definition match_upper :: "string \<Rightarrow> char list" where
  "match_upper style = filter is_upper style"

text \<open>
  \<open>style.replace(new RegExp(u), r)\<close> with a pattern that is one letter and no \<open>g\<close>
  flag replaces the leftmost occurrence of that letter, if there is one.
\<close>

fun replace_first :: "char \<Rightarrow> string \<Rightarrow> string \<Rightarrow> string" where
  "replace_first u r [] = []"
| "replace_first u r (x # xs) = (if x = u then r @ xs else x # replace_first u r xs)"

definition convertToCssProperty :: "string \<Rightarrow> string" where
  "convertToCssProperty style =
     (let upperChars = match_upper style in
      if upperChars = [] then style
      else
        let style' = foldl (\<lambda>st u. replace_first u (CHR ''-'' # [toLowerCase u]) st)
                       style upperChars
        in if take 1 style' = ''-'' then drop 1 style' else style')"

text \<open>
  The transform in the words of the specification: a hyphen before each capital, the
  capital lowercased, and the leading hyphen dropped when the first character produced it.
\<close>

definition hyphenate :: "char \<Rightarrow> string" where
  "hyphenate c = (if is_upper c then [CHR ''-'', toLowerCase c] else [c])"

definition kebab_case :: "string \<Rightarrow> string" where
  "kebab_case s =
     (case s of
        [] \<Rightarrow> []
      | c # cs \<Rightarrow>
          (if is_upper c then toLowerCase c # concat (map hyphenate cs)
           else concat (map hyphenate (c # cs))))"

section \<open>The element, the component instance and their environment\<close>

text \<open>
  An \<open>HTMLElement\<close> is passed by reference.  Of an element the component touches the
  inline style (\<open>el.style\<close>, where the empty string stands for a property that is not
  set), and reads two things the browser computes from it: the laid-out size
  (\<open>offsetHeight\<close>, \<open>offsetWidth\<close>) and the computed style.  What the browser computes
  is a parameter of the element, a function of its inline style at the time of the read.
  The inline style holds the strings as they were assigned; how the browser parses and
  normalises an assigned value is not part of the model.
\<close>

type_synonym element_ref = nat
type_synonym callback = nat
type_synonym inline_style = "string \<Rightarrow> string"

record element =
  style :: inline_style
  offsetHeight :: "inline_style \<Rightarrow> nat"
  offsetWidth :: "inline_style \<Rightarrow> nat"
  computedStyle :: "inline_style \<Rightarrow> string \<Rightarrow> string"

text \<open>
  A Number is a double.  The model has every Number that is an integer, given by its
  value, and names the others (the fractions, \<open>NaN\<close> and the infinities), whose
  arithmetic is outside the model.
\<close>

datatype number = Integer int | NonInteger nat

text \<open>
  Everything the component does to its environment is logged, in order: reads and writes
  of an inline style property, reads of the layout and of the computed style,
  \<open>$emit\<close> with its arguments, and \<open>setTimeout\<close> with its arguments.  \<open>Fire\<close> is
  logged by the timer queue when it runs a callback; no method of the component does.
  A callback argument is optional: \<open>None\<close> is JavaScript's \<open>undefined\<close>, the value
  of a parameter the caller did not pass.
\<close>

datatype effect =
    StyleGet element_ref string
  | StyleSet element_ref string string
  | OffsetGet element_ref string
  | ComputedGet element_ref string
  | Emit string element_ref "callback option"
  | SetTimeout "callback option" number
  | Fire "callback option"

text \<open>
  \<open>CachedStyles\<close> is an object: its keys in insertion order, each with a string.
\<close>

type_synonym CachedStyles = "(string \<times> string) list"

definition object_keys :: "CachedStyles \<Rightarrow> string list" where
  "object_keys c = map fst c"

text \<open>
  The props (\<open>name\<close>, \<open>dimension\<close>, \<open>duration\<close>, \<open>easing\<close>) and the data
  (\<open>cachedStyles\<close>) of one component instance, with the document, the log, the clock in
  milliseconds and the pending timers (callback and due time).  The last two fields are
  the platform's conversions of a Number where the model does not compute them:
  \<open>number_text\<close> is Number-to-string (consulted for a Number that is not a safe
  integer) and \<open>number_long\<close> the conversion to a signed 32-bit integer (consulted
  for a Number that is not an integer).
\<close>

record world =
  name :: string
  dimension :: string
  duration :: number
  easing :: string
  cachedStyles :: CachedStyles
  dom :: "element_ref \<Rightarrow> element"
  effects :: "effect list"
  now :: int
  timers :: "(callback option \<times> int) list"
  number_text :: "number \<Rightarrow> string"
  number_long :: "number \<Rightarrow> int"

definition safe_integer :: "int \<Rightarrow> bool" where
  "safe_integer i = (- (2 ^ 53) < i \<and> i < 2 ^ 53)"

definition number_to_string :: "world \<Rightarrow> number \<Rightarrow> string" where
  "number_to_string w n =
     (case n of
        Integer i \<Rightarrow> if safe_integer i then string_of_int i else number_text w n
      | NonInteger k \<Rightarrow> number_text w n)"

text \<open>
  The conversion of a Number to the signed 32-bit integer of a timer's delay: an integer
  is taken modulo \<open>2\<^sup>3\<^sup>2\<close> into the range from \<open>-2\<^sup>3\<^sup>1\<close> to \<open>2\<^sup>3\<^sup>1 - 1\<close>.
\<close>

definition to_long :: "world \<Rightarrow> number \<Rightarrow> int" where
  "to_long w n =
     (case n of
        Integer i \<Rightarrow> (i + 2 ^ 31) mod 2 ^ 32 - 2 ^ 31
      | NonInteger k \<Rightarrow> number_long w n)"

definition log :: "effect \<Rightarrow> world \<Rightarrow> world" where
  "log e w = w\<lparr>effects := effects w @ [e]\<rparr>"

definition style_read :: "element_ref \<Rightarrow> string \<Rightarrow> world \<Rightarrow> string \<times> world" where
  "style_read el k w = (style (dom w el) k, log (StyleGet el k) w)"

definition style_write :: "element_ref \<Rightarrow> string \<Rightarrow> string \<Rightarrow> world \<Rightarrow> world" where
  "style_write el k v w =
     log (StyleSet el k v)
       (w\<lparr>dom := (dom w)(el := (dom w el)\<lparr>style := (style (dom w el))(k := v)\<rparr>)\<rparr>)"

definition offset_read :: "element_ref \<Rightarrow> string \<Rightarrow> world \<Rightarrow> nat \<times> world" where
  "offset_read el k w =
     ((if k = ''offsetHeight'' then offsetHeight (dom w el) (style (dom w el))
       else offsetWidth (dom w el) (style (dom w el))),
      log (OffsetGet el k) w)"

definition getComputedStyle :: "element_ref \<Rightarrow> string \<Rightarrow> world \<Rightarrow> string \<times> world" where
  "getComputedStyle el p w =
     (computedStyle (dom w el) (style (dom w el)) p, log (ComputedGet el p) w)"

text \<open>
  \<open>$emit\<close> hands the event to the caller's listeners, which are outside the
  component; the model records the event and its arguments, and takes the listeners to
  leave the element and the instance alone.
\<close>

definition emit :: "string \<Rightarrow> element_ref \<Rightarrow> callback option \<Rightarrow> world \<Rightarrow> world" where
  "emit ev el cb w = log (Emit ev el cb) w"

text \<open>
  \<open>setTimeout(handler, timeout)\<close> returns at once; the handler is queued to run once,
  not before the delay has passed.  The delay is the timeout converted to a signed 32-bit
  integer, a negative result counting as zero.  \<open>elapse t\<close> is the timer queue at time
  \<open>t\<close>: it runs the pending timers that are due and removes them.
\<close>

definition timer_delay :: "world \<Rightarrow> number \<Rightarrow> int" where
  "timer_delay w timeout = max 0 (to_long w timeout)"

definition setTimeout :: "callback option \<Rightarrow> number \<Rightarrow> world \<Rightarrow> world" where
  "setTimeout handler timeout w =
     log (SetTimeout handler timeout)
       (w\<lparr>timers := timers w @ [(handler, now w + timer_delay w timeout)]\<rparr>)"



section \<open>The component\<close>

subsection \<open>The computed property \<open>transition\<close>\<close>

definition transition :: "world \<Rightarrow> string" where
  "transition w =
     join '', ''
       (map (\<lambda>key. convertToCssProperty key @ '' '' @ number_to_string w (duration w) @ ''ms ''
                  @ easing w)
          (object_keys (cachedStyles w)))"

subsection \<open>Methods that measure\<close>

definition getCssValue :: "element_ref \<Rightarrow> string \<Rightarrow> world \<Rightarrow> string \<times> world" where
  "getCssValue el p w = getComputedStyle el p w"

text \<open>
  The expression \<open>el.style[k] || this.getCssValue(el, p)\<close>: the computed style is read
  only when the inline value is the empty string.
\<close>

definition style_or_css :: "element_ref \<Rightarrow> string \<Rightarrow> string \<Rightarrow> world \<Rightarrow> string \<times> world" where
  "style_or_css el k p w =
     (case style_read el k w of
        (v, w1) \<Rightarrow> if v \<noteq> [] then (v, w1) else getCssValue el p w1)"

definition detectRelevantDimensions :: "element_ref \<Rightarrow> world \<Rightarrow> CachedStyles \<times> world" where
  "detectRelevantDimensions el w =
     (if dimension w = ''height'' then
        (case offset_read el ''offsetHeight'' w of (h, w1) \<Rightarrow>
         case style_or_css el ''paddingTop'' ''padding-top'' w1 of (pt, w2) \<Rightarrow>
         case style_or_css el ''paddingBottom'' ''padding-bottom'' w2 of (pb, w3) \<Rightarrow>
           ([(''height'', string_of_nat h @ ''px''),
             (''paddingTop'', pt),
             (''paddingBottom'', pb)], w3))
      else if dimension w = ''width'' then
        (case offset_read el ''offsetWidth'' w of (n, w1) \<Rightarrow>
         case style_or_css el ''paddingLeft'' ''padding-left'' w1 of (pl, w2) \<Rightarrow>
         case style_or_css el ''paddingRight'' ''padding-right'' w2 of (pr, w3) \<Rightarrow>
           ([(''width'', string_of_nat n @ ''px''),
             (''paddingLeft'', pl),
             (''paddingRight'', pr)], w3))
      else ([], w))"

definition detectAndCacheDimensions :: "element_ref \<Rightarrow> world \<Rightarrow> world" where
  "detectAndCacheDimensions el w =
     (if length (object_keys (cachedStyles w)) \<noteq> 0 then w
      else
        (case style_read el ''visibility'' w of (visibility, w1) \<Rightarrow>
         case style_read el ''display'' w1 of (display, w2) \<Rightarrow>
         let w3 = style_write el ''visibility'' ''hidden'' w2;
             w4 = style_write el ''display'' [] w3
         in case detectRelevantDimensions el w4 of (c, w5) \<Rightarrow>
         let w6 = w5\<lparr>cachedStyles := c\<rparr>;
             w7 = style_write el ''visibility'' visibility w6
         in style_write el ''display'' display w7))"

definition clearCachedDimensions :: "world \<Rightarrow> world" where
  "clearCachedDimensions w = w\<lparr>cachedStyles := []\<rparr>"

subsection \<open>Methods that write styles\<close>

definition setTransition :: "element_ref \<Rightarrow> world \<Rightarrow> world" where
  "setTransition el w = style_write el ''transition'' (transition w) w"

definition unsetTransition :: "element_ref \<Rightarrow> world \<Rightarrow> world" where
  "unsetTransition el w = style_write el ''transition'' [] w"

definition hideOverflow :: "element_ref \<Rightarrow> world \<Rightarrow> world" where
  "hideOverflow el w = style_write el ''overflow'' ''hidden'' w"

definition unsetOverflow :: "element_ref \<Rightarrow> world \<Rightarrow> world" where
  "unsetOverflow el w = style_write el ''overflow'' [] w"

text \<open>
  The three loops run over \<open>Object.keys(this.cachedStyles)\<close>, taken once before the
  first iteration.  In \<open>setOpenedDimensions\<close> the value is looked up under the key; a
  key of the object always has one.
\<close>

definition setClosedDimensions :: "element_ref \<Rightarrow> world \<Rightarrow> world" where
  "setClosedDimensions el w =
     foldl (\<lambda>w' key. style_write el key ''0'' w') w (object_keys (cachedStyles w))"

definition setOpenedDimensions :: "element_ref \<Rightarrow> world \<Rightarrow> world" where
  "setOpenedDimensions el w =
     foldl (\<lambda>w' key.
              case map_of (cachedStyles w') key of
                Some v \<Rightarrow> style_write el key v w'
              | None \<Rightarrow> w')
       w (object_keys (cachedStyles w))"

definition unsetDimensions :: "element_ref \<Rightarrow> world \<Rightarrow> world" where
  "unsetDimensions el w =
     foldl (\<lambda>w' key. style_write el key [] w') w (object_keys (cachedStyles w))"

definition forceRepaint :: "element_ref \<Rightarrow> world \<Rightarrow> world" where
  "forceRepaint el w = snd (getComputedStyle el (dimension w) w)"

subsection \<open>The twelve hooks\<close>

definition beforeAppear :: "element_ref \<Rightarrow> world \<Rightarrow> world" where
  "beforeAppear el w = emit ''before-appear'' el None w"

definition appear :: "element_ref \<Rightarrow> world \<Rightarrow> world" where
  "appear el w = emit ''appear'' el None w"

definition afterAppear :: "element_ref \<Rightarrow> world \<Rightarrow> world" where
  "afterAppear el w = emit ''after-appear'' el None w"

definition appearCancelled :: "element_ref \<Rightarrow> world \<Rightarrow> world" where
  "appearCancelled el w = emit ''appear-cancelled'' el None w"

definition beforeEnter :: "element_ref \<Rightarrow> world \<Rightarrow> world" where
  "beforeEnter el w = emit ''before-enter'' el None w"

definition enter :: "element_ref \<Rightarrow> callback option \<Rightarrow> world \<Rightarrow> world" where
  "enter el done w =
     (let w1 = detectAndCacheDimensions el w;
          w2 = setClosedDimensions el w1;
          w3 = hideOverflow el w2;
          w4 = forceRepaint el w3;
          w5 = setTransition el w4;
          w6 = setOpenedDimensions el w5;
          w7 = emit ''enter'' el done w6
      in setTimeout done (duration w7) w7)"

definition afterEnter :: "element_ref \<Rightarrow> world \<Rightarrow> world" where
  "afterEnter el w =
     (let w1 = unsetOverflow el w;
          w2 = unsetTransition el w1;
          w3 = unsetDimensions el w2;
          w4 = clearCachedDimensions w3
      in emit ''after-enter'' el None w4)"

definition enterCancelled :: "element_ref \<Rightarrow> world \<Rightarrow> world" where
  "enterCancelled el w = emit ''enter-cancelled'' el None w"

definition beforeLeave :: "element_ref \<Rightarrow> world \<Rightarrow> world" where
  "beforeLeave el w = emit ''before-leave'' el None w"

definition leave :: "element_ref \<Rightarrow> callback option \<Rightarrow> world \<Rightarrow> world" where
  "leave el done w =
     (let w1 = detectAndCacheDimensions el w;
          w2 = setOpenedDimensions el w1;
          w3 = hideOverflow el w2;
          w4 = forceRepaint el w3;
          w5 = setTransition el w4;
          w6 = setClosedDimensions el w5;
          w7 = emit ''leave'' el done w6
      in setTimeout done (duration w7) w7)"

definition afterLeave :: "element_ref \<Rightarrow> world \<Rightarrow> world" where
  "afterLeave el w =
     (let w1 = unsetOverflow el w;
          w2 = unsetTransition el w1;
          w3 = unsetDimensions el w2;
          w4 = clearCachedDimensions w3
      in emit ''after-leave'' el None w4)"

definition leaveCancelled :: "element_ref \<Rightarrow> world \<Rightarrow> world" where
  "leaveCancelled el w = emit ''leave-cancelled'' el None w"

subsection \<open>The template and the watcher\<close>

text \<open>
  The template binds each of the host's twelve hooks to the method of the same name.
  The host calls a hook with the element and, where it has one, a completion callback;
  a method declared with the element alone ignores a second argument.
\<close>

datatype hook =
    BeforeAppear | Appear | AfterAppear | AppearCancelled
  | BeforeEnter | Enter | AfterEnter | EnterCancelled
  | BeforeLeave | Leave | AfterLeave | LeaveCancelled

fun hook_name :: "hook \<Rightarrow> string" where
  "hook_name BeforeAppear = ''before-appear''"
| "hook_name Appear = ''appear''"
| "hook_name AfterAppear = ''after-appear''"
| "hook_name AppearCancelled = ''appear-cancelled''"
| "hook_name BeforeEnter = ''before-enter''"
| "hook_name Enter = ''enter''"
| "hook_name AfterEnter = ''after-enter''"
| "hook_name EnterCancelled = ''enter-cancelled''"
| "hook_name BeforeLeave = ''before-leave''"
| "hook_name Leave = ''leave''"
| "hook_name AfterLeave = ''after-leave''"
| "hook_name LeaveCancelled = ''leave-cancelled''"

fun dispatch :: "hook \<Rightarrow> element_ref \<Rightarrow> callback option \<Rightarrow> world \<Rightarrow> world" where
  "dispatch BeforeAppear el done w = beforeAppear el w"
| "dispatch Appear el done w = appear el w"
| "dispatch AfterAppear el done w = afterAppear el w"
| "dispatch AppearCancelled el done w = appearCancelled el w"
| "dispatch BeforeEnter el done w = beforeEnter el w"
| "dispatch Enter el done w = enter el done w"
| "dispatch AfterEnter el done w = afterEnter el w"
| "dispatch EnterCancelled el done w = enterCancelled el w"
| "dispatch BeforeLeave el done w = beforeLeave el w"
| "dispatch Leave el done w = leave el done w"
| "dispatch AfterLeave el done w = afterLeave el w"
| "dispatch LeaveCancelled el done w = leaveCancelled el w"

text \<open>
  The watcher on \<open>dimension\<close> runs when the prop takes a new value.
\<close>

definition set_dimension :: "string \<Rightarrow> world \<Rightarrow> world" where
  "set_dimension d w =
     (if d = dimension w then w else clearCachedDimensions (w\<lparr>dimension := d\<rparr>))"

section \<open>Vocabulary of the statements\<close>

text \<open>
  \<open>assign_all kvs st\<close> is the inline style \<open>st\<close> after the assignments
  \<open>el.style[k] = v\<close> for the pairs of \<open>kvs\<close>, in order.  \<open>property c k\<close> is
  \<open>c[k]\<close> for a key of the object \<open>c\<close>.
\<close>

definition assign_all :: "(string \<times> string) list \<Rightarrow> inline_style \<Rightarrow> inline_style" where
  "assign_all kvs st = foldl (\<lambda>s (k, v). s(k := v)) st kvs"

definition property :: "CachedStyles \<Rightarrow> string \<Rightarrow> string" where
  "property c k = (case map_of c k of Some v \<Rightarrow> v | None \<Rightarrow> [])"

text \<open>
  The world in which \<open>detectAndCacheDimensions\<close> calls \<open>detectRelevantDimensions\<close>:
  the two inline values have been read, \<open>visibility\<close> is \<open>hidden\<close> and \<open>display\<close>
  is not set.
\<close>

definition measuring :: "world \<Rightarrow> element_ref \<Rightarrow> world" where
  "measuring w el =
     w\<lparr>dom := (dom w)(el := (dom w el)\<lparr>style :=
             (style (dom w el))(''visibility'' := ''hidden'', ''display'' := [])\<rparr>),
       effects := effects w @
         [StyleGet el ''visibility'', StyleGet el ''display'',
          StyleSet el ''visibility'' ''hidden'', StyleSet el ''display'' []]\<rparr>"

fun is_emit :: "effect \<Rightarrow> bool" where
  "is_emit (Emit ev el cb) = True"
| "is_emit e = False"

fun is_timeout :: "effect \<Rightarrow> bool" where
  "is_timeout (SetTimeout h t) = True"
| "is_timeout e = False"

fun is_fire :: "effect \<Rightarrow> bool" where
  "is_fire (Fire h) = True"
| "is_fire e = False"

text \<open>
  The states of an instance.  \<open>data()\<close> creates it with an empty cache, whatever the
  props and the document; the host calls hooks; a new value of \<open>dimension\<close> runs the
  watcher; and the environment (the other props, the document, the clock and the timer
  queue) may change in any way that leaves \<open>dimension\<close> and the cache alone.
\<close>

inductive reachable :: "world \<Rightarrow> bool" where
  created: "cachedStyles w = [] \<Longrightarrow> reachable w"
| hook: "reachable w \<Longrightarrow> reachable (dispatch h el cb w)"
| watch: "reachable w \<Longrightarrow> reachable (set_dimension d w)"
| environment:
    "reachable w \<Longrightarrow> dimension w' = dimension w \<Longrightarrow> cachedStyles w' = cachedStyles w
     \<Longrightarrow> reachable w'"

code_pred reachable .

definition cache_shape :: "world \<Rightarrow> bool" where
  "cache_shape w =
     (object_keys (cachedStyles w) = []
      \<or> dimension w = ''height''
        \<and> object_keys (cachedStyles w) = [''height'', ''paddingTop'', ''paddingBottom'']
      \<or> dimension w = ''width''
        \<and> object_keys (cachedStyles w) = [''width'', ''paddingLeft'', ''paddingRight''])"

text \<open>
  The decimal numerals: the digits, and the number a string of digits stands for.
\<close>

definition is_digit :: "char \<Rightarrow> bool" where
  "is_digit c = (48 \<le> (of_char c :: nat) \<and> (of_char c :: nat) \<le> 57)"

definition decimal_value :: "string \<Rightarrow> nat" where
  "decimal_value s = foldl (\<lambda>a c. 10 * a + ((of_char c :: nat) - 48)) 0 s"

text \<open>
  A sample: an element with no inline style that lays out 120 pixels high and 200 wide,
  with computed paddings of 10px (top) and 5px (bottom), in a fresh instance with the
  default props, on a platform that renders \<open>10\<^sup>2\<^sup>1\<close> as \<open>1e+21\<close>.
\<close>

definition sample_element :: element where
  "sample_element =
     \<lparr>style = (\<lambda>k. []),
      offsetHeight = (\<lambda>st. 120),
      offsetWidth = (\<lambda>st. 200),
      computedStyle = (\<lambda>st p. if p = ''padding-top'' then ''10px''
                                else if p = ''padding-bottom'' then ''5px'' else ''0px'')\<rparr>"

definition sample_world :: world where
  "sample_world =
     \<lparr>name = ''collapse'', dimension = ''height'', duration = Integer 300, easing = ''ease-in'',
      cachedStyles = [], dom = (\<lambda>el. sample_element), effects = [], now = 0, timers = [],
      number_text = (\<lambda>n. if n = Integer (10 ^ 21) then ''1e+21'' else ''NaN''),
      number_long = (\<lambda>n. 0)\<rparr>"

definition sample_cache :: CachedStyles where
  "sample_cache = [(''height'', ''120px''), (''paddingTop'', ''10px''), (''paddingBottom'', ''5px'')]"

text \<open>
  The same instance around an element that is hidden by an inline \<open>display: none\<close>
  and has an inline top padding.
\<close>

definition hidden_world :: world where
  "hidden_world =
     sample_world\<lparr>dom := (\<lambda>el. sample_element\<lparr>style :=
        (\<lambda>k. if k = ''display'' then ''none'' else if k = ''paddingTop'' then ''4px'' else [])\<rparr>)\<rparr>"

section \<open>Lemmas on \<open>convertToCssProperty\<close>\<close>

lemma not_upper_hyphen: "\<not> is_upper CHR ''-''"
  by (simp add: is_upper_def)

lemma not_upper_toLowerCase: "is_upper u \<Longrightarrow> \<not> is_upper (toLowerCase u)"
  by (simp add: is_upper_def toLowerCase_def)

lemma hyphenate_upper: "is_upper c \<Longrightarrow> hyphenate c = [CHR ''-'', toLowerCase c]"
  by (simp add: hyphenate_def)

lemma hyphenate_other: "\<not> is_upper c \<Longrightarrow> hyphenate c = [c]"
  by (simp add: hyphenate_def)

lemma replace_first_append:
  "u \<notin> set p \<Longrightarrow> replace_first u r (p @ u # xs) = p @ r @ xs"
  by (induction p) auto

lemma foldl_replace_first:
  "\<forall>c \<in> set p. \<not> is_upper c \<Longrightarrow>
   foldl (\<lambda>st u. replace_first u (CHR ''-'' # [toLowerCase u]) st) (p @ s) (filter is_upper s)
     = p @ concat (map hyphenate s)"
proof (induction s arbitrary: p)
  case Nil
  then show ?case by simp
next
  case (Cons x xs)
  show ?case
  proof (cases "is_upper x")
    case True
    then have notin: "x \<notin> set p" using Cons.prems by auto
    have pre: "\<forall>c \<in> set (p @ [CHR ''-'', toLowerCase x]). \<not> is_upper c"
      using Cons.prems True by (auto simp: not_upper_hyphen not_upper_toLowerCase)
    have "foldl (\<lambda>st u. replace_first u (CHR ''-'' # [toLowerCase u]) st) (p @ x # xs) (filter is_upper (x # xs))
        = foldl (\<lambda>st u. replace_first u (CHR ''-'' # [toLowerCase u]) st) ((p @ [CHR ''-'', toLowerCase x]) @ xs) (filter is_upper xs)"
      using True by (simp add: replace_first_append [OF notin])
    also have "\<dots> = (p @ [CHR ''-'', toLowerCase x]) @ concat (map hyphenate xs)"
      by (rule Cons.IH [OF pre])
    finally show ?thesis using True by (simp add: hyphenate_upper)
  next
    case False
    have pre: "\<forall>c \<in> set (p @ [x]). \<not> is_upper c"
      using Cons.prems False by auto
    have "foldl (\<lambda>st u. replace_first u (CHR ''-'' # [toLowerCase u]) st) (p @ x # xs) (filter is_upper (x # xs))
        = foldl (\<lambda>st u. replace_first u (CHR ''-'' # [toLowerCase u]) st) ((p @ [x]) @ xs) (filter is_upper xs)"
      using False by simp
    also have "\<dots> = (p @ [x]) @ concat (map hyphenate xs)"
      by (rule Cons.IH [OF pre])
    finally show ?thesis using False by (simp add: hyphenate_other)
  qed
qed

lemma hyphenate_no_upper:
  "filter is_upper s = [] \<Longrightarrow> concat (map hyphenate s) = s"
  by (induction s) (auto simp: hyphenate_other split: if_splits)

lemma convertToCssProperty_concat:
  "convertToCssProperty s =
     (if match_upper s = [] then s
      else if take 1 (concat (map hyphenate s)) = ''-'' then drop 1 (concat (map hyphenate s))
      else concat (map hyphenate s))"
  using foldl_replace_first [of "[]" s]
  by (simp add: convertToCssProperty_def match_upper_def Let_def)

lemma convertToCssProperty_kebab_case:
  "convertToCssProperty s =
     (if match_upper s \<noteq> [] \<and> take 1 s = ''-'' then drop 1 (kebab_case s) else kebab_case s)"
proof (cases s)
  case Nil
  then show ?thesis by (simp add: convertToCssProperty_concat kebab_case_def match_upper_def)
next
  case (Cons c cs)
  show ?thesis
  proof (cases "match_upper s = []")
    case True
    then show ?thesis
      using hyphenate_no_upper [of s] Cons
      by (auto simp: convertToCssProperty_concat kebab_case_def match_upper_def split: if_splits)
  next
    case False
    then show ?thesis
      using Cons
      by (auto simp: convertToCssProperty_concat kebab_case_def match_upper_def hyphenate_upper hyphenate_other not_upper_hyphen)
  qed
qed


section \<open>Lemmas on the style loops\<close>

lemma assign_all_Nil [simp]: "assign_all [] st = st"
  by (simp add: assign_all_def)

lemma assign_all_Cons [simp]: "assign_all ((k, v) # kvs) st = assign_all kvs (st(k := v))"
  by (simp add: assign_all_def)

lemma assign_all_append [simp]: "assign_all (xs @ ys) st = assign_all ys (assign_all xs st)"
  by (simp add: assign_all_def)

lemma assign_all_apply:
  "assign_all (map (\<lambda>k. (k, f k)) ks) st k = (if k \<in> set ks then f k else st k)"
  by (induction ks arbitrary: st) auto

lemma foldl_style_write:
  "foldl (\<lambda>w' k. style_write el k (f k) w') w ks =
     w\<lparr>dom := (dom w)(el := (dom w el)\<lparr>style := assign_all (map (\<lambda>k. (k, f k)) ks) (style (dom w el))\<rparr>),
       effects := effects w @ map (\<lambda>k. StyleSet el k (f k)) ks\<rparr>"
proof (induction ks arbitrary: w)
  case Nil
  show ?case by simp
next
  case (Cons k ks)
  have "foldl (\<lambda>w' k. style_write el k (f k) w') w (k # ks)
      = foldl (\<lambda>w' k. style_write el k (f k) w') (style_write el k (f k) w) ks"
    by simp
  also note Cons.IH [of "style_write el k (f k) w"]
  also have "(style_write el k (f k) w)
      \<lparr>dom := (dom (style_write el k (f k) w))(el := (dom (style_write el k (f k) w) el)
          \<lparr>style := assign_all (map (\<lambda>k. (k, f k)) ks) (style (dom (style_write el k (f k) w) el))\<rparr>),
        effects := effects (style_write el k (f k) w) @ map (\<lambda>k. StyleSet el k (f k)) ks\<rparr>
    = w\<lparr>dom := (dom w)(el := (dom w el)\<lparr>style := assign_all (map (\<lambda>k. (k, f k)) (k # ks)) (style (dom w el))\<rparr>),
       effects := effects w @ map (\<lambda>k. StyleSet el k (f k)) (k # ks)\<rparr>"
    by (simp add: style_write_def log_def)
  finally show ?case .
qed

lemma setClosedDimensions_eq:
  "setClosedDimensions el w =
     w\<lparr>dom := (dom w)(el := (dom w el)\<lparr>style :=
              assign_all (map (\<lambda>k. (k, ''0'')) (object_keys (cachedStyles w))) (style (dom w el))\<rparr>),
       effects := effects w @ map (\<lambda>k. StyleSet el k ''0'') (object_keys (cachedStyles w))\<rparr>"
  by (simp add: setClosedDimensions_def foldl_style_write)

lemma unsetDimensions_eq:
  "unsetDimensions el w =
     w\<lparr>dom := (dom w)(el := (dom w el)\<lparr>style :=
              assign_all (map (\<lambda>k. (k, [])) (object_keys (cachedStyles w))) (style (dom w el))\<rparr>),
       effects := effects w @ map (\<lambda>k. StyleSet el k []) (object_keys (cachedStyles w))\<rparr>"
  by (simp add: unsetDimensions_def foldl_style_write)

lemma cachedStyles_style_write [simp]: "cachedStyles (style_write el k v w) = cachedStyles w"
  by (simp add: style_write_def log_def)

lemma foldl_lookup_write:
  "set ks \<subseteq> fst ` set c \<Longrightarrow> cachedStyles w = c \<Longrightarrow>
   foldl (\<lambda>w' key. case map_of (cachedStyles w') key of
                      Some v \<Rightarrow> style_write el key v w' | None \<Rightarrow> w') w ks
   = foldl (\<lambda>w' k. style_write el k (property c k) w') w ks"
proof (induction ks arbitrary: w)
  case Nil
  show ?case by simp
next
  case (Cons k ks)
  from Cons.prems have "map_of c k \<noteq> None"
    by (simp add: map_of_eq_None_iff)
  then obtain v where v: "map_of c k = Some v"
    by (cases "map_of c k") auto
  have "cachedStyles (style_write el k v w) = c" using Cons.prems by simp
  with Cons.IH [of "style_write el k v w"] Cons.prems v show ?case
    by (simp add: property_def)
qed

lemma setOpenedDimensions_eq:
  "setOpenedDimensions el w =
     w\<lparr>dom := (dom w)(el := (dom w el)\<lparr>style :=
              assign_all (map (\<lambda>k. (k, property (cachedStyles w) k)) (object_keys (cachedStyles w)))
                (style (dom w el))\<rparr>),
       effects := effects w @
         map (\<lambda>k. StyleSet el k (property (cachedStyles w) k)) (object_keys (cachedStyles w))\<rparr>"
proof -
  have "set (object_keys (cachedStyles w)) \<subseteq> fst ` set (cachedStyles w)"
    by (simp add: object_keys_def)
  from foldl_lookup_write [OF this refl] show ?thesis
    by (simp only: setOpenedDimensions_def foldl_style_write)
qed

section \<open>Lemmas on the probe\<close>

lemma restore_style:
  "st(''visibility'' := x, ''display'' := y, ''visibility'' := st ''visibility'',
      ''display'' := st ''display'') = st"
  by (rule ext) simp

lemma style_or_css_eq:
  "style_or_css el k p w =
     ((if style (dom w el) k \<noteq> [] then style (dom w el) k
       else computedStyle (dom w el) (style (dom w el)) p),
      w\<lparr>effects := effects w @ StyleGet el k #
         (if style (dom w el) k \<noteq> [] then [] else [ComputedGet el p])\<rparr>)"
  by (simp add: style_or_css_def style_read_def getCssValue_def getComputedStyle_def log_def)

lemma detectRelevantDimensions_height:
  assumes "dimension w = ''height''"
  shows "detectRelevantDimensions el w =
     ([(''height'', string_of_nat (offsetHeight (dom w el) (style (dom w el))) @ ''px''),
       (''paddingTop'',
          if style (dom w el) ''paddingTop'' \<noteq> [] then style (dom w el) ''paddingTop''
          else computedStyle (dom w el) (style (dom w el)) ''padding-top''),
       (''paddingBottom'',
          if style (dom w el) ''paddingBottom'' \<noteq> [] then style (dom w el) ''paddingBottom''
          else computedStyle (dom w el) (style (dom w el)) ''padding-bottom'')],
      w\<lparr>effects := effects w @
         [OffsetGet el ''offsetHeight'', StyleGet el ''paddingTop''] @
         (if style (dom w el) ''paddingTop'' \<noteq> [] then [] else [ComputedGet el ''padding-top'']) @
         [StyleGet el ''paddingBottom''] @
         (if style (dom w el) ''paddingBottom'' \<noteq> [] then [] else [ComputedGet el ''padding-bottom''])\<rparr>)"
  using assms
  by (simp add: detectRelevantDimensions_def offset_read_def style_or_css_eq log_def)

lemma detectRelevantDimensions_width:
  assumes "dimension w = ''width''"
  shows "detectRelevantDimensions el w =
     ([(''width'', string_of_nat (offsetWidth (dom w el) (style (dom w el))) @ ''px''),
       (''paddingLeft'',
          if style (dom w el) ''paddingLeft'' \<noteq> [] then style (dom w el) ''paddingLeft''
          else computedStyle (dom w el) (style (dom w el)) ''padding-left''),
       (''paddingRight'',
          if style (dom w el) ''paddingRight'' \<noteq> [] then style (dom w el) ''paddingRight''
          else computedStyle (dom w el) (style (dom w el)) ''padding-right'')],
      w\<lparr>effects := effects w @
         [OffsetGet el ''offsetWidth'', StyleGet el ''paddingLeft''] @
         (if style (dom w el) ''paddingLeft'' \<noteq> [] then [] else [ComputedGet el ''padding-left'']) @
         [StyleGet el ''paddingRight''] @
         (if style (dom w el) ''paddingRight'' \<noteq> [] then [] else [ComputedGet el ''padding-right''])\<rparr>)"
  using assms
  by (simp add: detectRelevantDimensions_def offset_read_def style_or_css_eq log_def)

lemma detectRelevantDimensions_other:
  assumes "dimension w \<noteq> ''height''" and "dimension w \<noteq> ''width''"
  shows "detectRelevantDimensions el w = ([], w)"
  using assms by (simp add: detectRelevantDimensions_def)

lemma detectRelevantDimensions_keys:
  "object_keys (fst (detectRelevantDimensions el w)) =
     (if dimension w = ''height'' then [''height'', ''paddingTop'', ''paddingBottom'']
      else if dimension w = ''width'' then [''width'', ''paddingLeft'', ''paddingRight'']
      else [])"
  by (simp add: detectRelevantDimensions_height detectRelevantDimensions_width
        detectRelevantDimensions_other object_keys_def)

lemma detectRelevantDimensions_logs:
  "\<exists>xs. snd (detectRelevantDimensions el w) = w\<lparr>effects := effects w @ xs\<rparr>"
proof -
  consider "dimension w = ''height''" | "dimension w = ''width''"
    | "dimension w \<noteq> ''height''" "dimension w \<noteq> ''width''" by blast
  then show ?thesis
  proof cases
    case 1
    show ?thesis unfolding detectRelevantDimensions_height [OF 1] snd_conv by (rule exI) (rule refl)
  next
    case 2
    show ?thesis unfolding detectRelevantDimensions_width [OF 2] snd_conv by (rule exI) (rule refl)
  next
    case 3
    then show ?thesis by (simp add: detectRelevantDimensions_other exI [of _ "[]"])
  qed
qed

lemma detectAndCacheDimensions_cached:
  "cachedStyles w \<noteq> [] \<Longrightarrow> detectAndCacheDimensions el w = w"
  by (simp add: detectAndCacheDimensions_def object_keys_def)

lemma detectAndCacheDimensions_empty:
  assumes "cachedStyles w = []"
  shows "detectAndCacheDimensions el w =
     w\<lparr>cachedStyles := fst (detectRelevantDimensions el (measuring w el)),
       effects := effects (snd (detectRelevantDimensions el (measuring w el))) @
         [StyleSet el ''visibility'' (style (dom w el) ''visibility''),
          StyleSet el ''display'' (style (dom w el) ''display'')]\<rparr>"
proof -
  obtain xs where xs: "snd (detectRelevantDimensions el (measuring w el))
      = (measuring w el)\<lparr>effects := effects (measuring w el) @ xs\<rparr>"
    using detectRelevantDimensions_logs by blast
  obtain c w5 where p: "detectRelevantDimensions el (measuring w el) = (c, w5)"
    by (cases "detectRelevantDimensions el (measuring w el)")
  have m: "style_write el ''display'' [] (style_write el ''visibility'' ''hidden''
        (snd (style_read el ''display'' (snd (style_read el ''visibility'' w))))) = measuring w el"
    by (simp add: style_write_def style_read_def log_def measuring_def)
  have w5: "w5 = (measuring w el)\<lparr>effects := effects (measuring w el) @ xs\<rparr>"
    using xs p by simp
  show ?thesis
    using assms m
    apply (simp add: detectAndCacheDimensions_def object_keys_def style_read_def Let_def p
        split: prod.splits)
    apply (simp add: w5 style_write_def log_def measuring_def restore_style)
    done
qed

lemma detectAndCacheDimensions_height:
  assumes "cachedStyles w = []" and "dimension w = ''height''"
  shows "detectAndCacheDimensions el w =
     w\<lparr>cachedStyles :=
         [(''height'', string_of_nat (offsetHeight (dom w el)
              ((style (dom w el))(''visibility'' := ''hidden'', ''display'' := []))) @ ''px''),
          (''paddingTop'',
             if style (dom w el) ''paddingTop'' \<noteq> [] then style (dom w el) ''paddingTop''
             else computedStyle (dom w el)
               ((style (dom w el))(''visibility'' := ''hidden'', ''display'' := [])) ''padding-top''),
          (''paddingBottom'',
             if style (dom w el) ''paddingBottom'' \<noteq> [] then style (dom w el) ''paddingBottom''
             else computedStyle (dom w el)
               ((style (dom w el))(''visibility'' := ''hidden'', ''display'' := [])) ''padding-bottom'')],
       effects := effects w @
         [StyleGet el ''visibility'', StyleGet el ''display'',
          StyleSet el ''visibility'' ''hidden'', StyleSet el ''display'' [],
          OffsetGet el ''offsetHeight'', StyleGet el ''paddingTop''] @
         (if style (dom w el) ''paddingTop'' \<noteq> [] then [] else [ComputedGet el ''padding-top'']) @
         [StyleGet el ''paddingBottom''] @
         (if style (dom w el) ''paddingBottom'' \<noteq> [] then [] else [ComputedGet el ''padding-bottom'']) @
         [StyleSet el ''visibility'' (style (dom w el) ''visibility''),
          StyleSet el ''display'' (style (dom w el) ''display'')]\<rparr>"
proof -
  have d: "dimension (measuring w el) = ''height''"
    using assms(2) by (simp add: measuring_def)
  show ?thesis
    unfolding detectAndCacheDimensions_empty [OF assms(1)] detectRelevantDimensions_height [OF d]
    by (simp add: measuring_def)
qed

lemma detectAndCacheDimensions_width:
  assumes "cachedStyles w = []" and "dimension w = ''width''"
  shows "detectAndCacheDimensions el w =
     w\<lparr>cachedStyles :=
         [(''width'', string_of_nat (offsetWidth (dom w el)
              ((style (dom w el))(''visibility'' := ''hidden'', ''display'' := []))) @ ''px''),
          (''paddingLeft'',
             if style (dom w el) ''paddingLeft'' \<noteq> [] then style (dom w el) ''paddingLeft''
             else computedStyle (dom w el)
               ((style (dom w el))(''visibility'' := ''hidden'', ''display'' := [])) ''padding-left''),
          (''paddingRight'',
             if style (dom w el) ''paddingRight'' \<noteq> [] then style (dom w el) ''paddingRight''
             else computedStyle (dom w el)
               ((style (dom w el))(''visibility'' := ''hidden'', ''display'' := [])) ''padding-right'')],
       effects := effects w @
         [StyleGet el ''visibility'', StyleGet el ''display'',
          StyleSet el ''visibility'' ''hidden'', StyleSet el ''display'' [],
          OffsetGet el ''offsetWidth'', StyleGet el ''paddingLeft''] @
         (if style (dom w el) ''paddingLeft'' \<noteq> [] then [] else [ComputedGet el ''padding-left'']) @
         [StyleGet el ''paddingRight''] @
         (if style (dom w el) ''paddingRight'' \<noteq> [] then [] else [ComputedGet el ''padding-right'']) @
         [StyleSet el ''visibility'' (style (dom w el) ''visibility''),
          StyleSet el ''display'' (style (dom w el) ''display'')]\<rparr>"
proof -
  have d: "dimension (measuring w el) = ''width''"
    using assms(2) by (simp add: measuring_def)
  show ?thesis
    unfolding detectAndCacheDimensions_empty [OF assms(1)] detectRelevantDimensions_width [OF d]
    by (simp add: measuring_def)
qed

lemma detectAndCacheDimensions_other:
  assumes "cachedStyles w = []" and "dimension w \<noteq> ''height''" and "dimension w \<noteq> ''width''"
  shows "detectAndCacheDimensions el w =
     w\<lparr>effects := effects w @
         [StyleGet el ''visibility'', StyleGet el ''display'',
          StyleSet el ''visibility'' ''hidden'', StyleSet el ''display'' [],
          StyleSet el ''visibility'' (style (dom w el) ''visibility''),
          StyleSet el ''display'' (style (dom w el) ''display'')]\<rparr>"
proof -
  have d: "dimension (measuring w el) \<noteq> ''height''" "dimension (measuring w el) \<noteq> ''width''"
    using assms(2,3) by (simp_all add: measuring_def)
  show ?thesis
    unfolding detectAndCacheDimensions_empty [OF assms(1)] detectRelevantDimensions_other [OF d]
    using assms(1) by (simp add: measuring_def)
qed

lemma detectAndCacheDimensions_effects:
  "\<exists>xs. effects (detectAndCacheDimensions el w) = effects w @ xs \<and>
        filter is_emit xs = [] \<and> filter is_timeout xs = [] \<and> filter is_fire xs = []"
proof (cases "cachedStyles w = []")
  case False
  then show ?thesis by (simp add: detectAndCacheDimensions_cached)
next
  case True
  consider "dimension w = ''height''" | "dimension w = ''width''"
    | "dimension w \<noteq> ''height''" "dimension w \<noteq> ''width''" by blast
  then show ?thesis
  proof cases
    case 1
    show ?thesis by (simp add: detectAndCacheDimensions_height [OF True 1])
  next
    case 2
    show ?thesis by (simp add: detectAndCacheDimensions_width [OF True 2])
  next
    case 3
    show ?thesis by (simp add: detectAndCacheDimensions_other [OF True 3])
  qed
qed

lemma detectAndCacheDimensions_keys:
  "cachedStyles w = [] \<Longrightarrow>
   object_keys (cachedStyles (detectAndCacheDimensions el w)) =
     (if dimension w = ''height'' then [''height'', ''paddingTop'', ''paddingBottom'']
      else if dimension w = ''width'' then [''width'', ''paddingLeft'', ''paddingRight'']
      else [])"
  using detectRelevantDimensions_keys [of el "measuring w el"]
  by (simp add: detectAndCacheDimensions_empty measuring_def)

section \<open>The handlers as one update of the world\<close>

lemma detectAndCacheDimensions_shape:
  "\<exists>c xs. detectAndCacheDimensions el w = w\<lparr>cachedStyles := c, effects := effects w @ xs\<rparr>"
proof (cases "cachedStyles w = []")
  case False
  then have "detectAndCacheDimensions el w = w\<lparr>cachedStyles := cachedStyles w, effects := effects w @ []\<rparr>"
    by (simp add: detectAndCacheDimensions_cached)
  then show ?thesis by blast
next
  case True
  obtain xs where xs: "snd (detectRelevantDimensions el (measuring w el))
      = (measuring w el)\<lparr>effects := effects (measuring w el) @ xs\<rparr>"
    using detectRelevantDimensions_logs by blast
  have "detectAndCacheDimensions el w =
     w\<lparr>cachedStyles := fst (detectRelevantDimensions el (measuring w el)),
       effects := effects w @
         ([StyleGet el ''visibility'', StyleGet el ''display'',
           StyleSet el ''visibility'' ''hidden'', StyleSet el ''display'' []] @ xs @
          [StyleSet el ''visibility'' (style (dom w el) ''visibility''),
           StyleSet el ''display'' (style (dom w el) ''display'')])\<rparr>"
    by (simp add: detectAndCacheDimensions_empty [OF True] xs) (simp add: measuring_def)
  then show ?thesis by blast
qed

lemma detectAndCacheDimensions_frame [simp]:
  "dom (detectAndCacheDimensions el w) = dom w"
  "dimension (detectAndCacheDimensions el w) = dimension w"
  "duration (detectAndCacheDimensions el w) = duration w"
  "easing (detectAndCacheDimensions el w) = easing w"
  "name (detectAndCacheDimensions el w) = name w"
  "now (detectAndCacheDimensions el w) = now w"
  "timers (detectAndCacheDimensions el w) = timers w"
  "number_text (detectAndCacheDimensions el w) = number_text w"
  "number_long (detectAndCacheDimensions el w) = number_long w"
  using detectAndCacheDimensions_shape [of el w] by auto

lemma timer_delay_frame [simp]:
  "timer_delay (w\<lparr>dom := d\<rparr>) n = timer_delay w n"
  "timer_delay (w\<lparr>effects := e\<rparr>) n = timer_delay w n"
  "timer_delay (w\<lparr>timers := t\<rparr>) n = timer_delay w n"
  "timer_delay (w\<lparr>cachedStyles := c\<rparr>) n = timer_delay w n"
  "timer_delay (detectAndCacheDimensions el w) n = timer_delay w n"
  by (simp_all add: timer_delay_def to_long_def split: number.split)


lemma transition_frame [simp]:
  "transition (w\<lparr>dom := d\<rparr>) = transition w"
  "transition (w\<lparr>effects := e\<rparr>) = transition w"
  "transition (w\<lparr>timers := t\<rparr>) = transition w"
  "transition (w\<lparr>now := n\<rparr>) = transition w"
  by (simp_all add: transition_def number_to_string_def split: number.split)

lemma enter_eq:
  "enter el done w =
     (let w1 = detectAndCacheDimensions el w;
          c = cachedStyles w1;
          ks = object_keys c
      in w1\<lparr>dom := (dom w)(el := (dom w el)\<lparr>style :=
                assign_all (map (\<lambda>k. (k, property c k)) ks)
                  ((assign_all (map (\<lambda>k. (k, ''0'')) ks) (style (dom w el)))
                     (''overflow'' := ''hidden'', ''transition'' := transition w1))\<rparr>),
            effects := effects w1 @
              map (\<lambda>k. StyleSet el k ''0'') ks @
              [StyleSet el ''overflow'' ''hidden'',
               ComputedGet el (dimension w),
               StyleSet el ''transition'' (transition w1)] @
              map (\<lambda>k. StyleSet el k (property c k)) ks @
              [Emit ''enter'' el done, SetTimeout done (duration w)],
            timers := timers w @ [(done, now w + timer_delay w (duration w))]\<rparr>)"
  by (simp add: enter_def Let_def setClosedDimensions_eq setOpenedDimensions_eq hideOverflow_def
      forceRepaint_def getComputedStyle_def setTransition_def emit_def setTimeout_def
      style_write_def log_def)

lemma leave_eq:
  "leave el done w =
     (let w1 = detectAndCacheDimensions el w;
          c = cachedStyles w1;
          ks = object_keys c
      in w1\<lparr>dom := (dom w)(el := (dom w el)\<lparr>style :=
                assign_all (map (\<lambda>k. (k, ''0'')) ks)
                  ((assign_all (map (\<lambda>k. (k, property c k)) ks) (style (dom w el)))
                     (''overflow'' := ''hidden'', ''transition'' := transition w1))\<rparr>),
            effects := effects w1 @
              map (\<lambda>k. StyleSet el k (property c k)) ks @
              [StyleSet el ''overflow'' ''hidden'',
               ComputedGet el (dimension w),
               StyleSet el ''transition'' (transition w1)] @
              map (\<lambda>k. StyleSet el k ''0'') ks @
              [Emit ''leave'' el done, SetTimeout done (duration w)],
            timers := timers w @ [(done, now w + timer_delay w (duration w))]\<rparr>)"
  by (simp add: leave_def Let_def setClosedDimensions_eq setOpenedDimensions_eq hideOverflow_def
      forceRepaint_def getComputedStyle_def setTransition_def emit_def setTimeout_def
      style_write_def log_def)

lemma afterEnter_eq:
  "afterEnter el w =
     w\<lparr>cachedStyles := [],
       dom := (dom w)(el := (dom w el)\<lparr>style :=
                assign_all (map (\<lambda>k. (k, [])) (object_keys (cachedStyles w)))
                  ((style (dom w el))(''overflow'' := [], ''transition'' := []))\<rparr>),
       effects := effects w @
         [StyleSet el ''overflow'' [], StyleSet el ''transition'' []] @
         map (\<lambda>k. StyleSet el k []) (object_keys (cachedStyles w)) @
         [Emit ''after-enter'' el None]\<rparr>"
  by (simp add: afterEnter_def Let_def unsetDimensions_eq unsetOverflow_def unsetTransition_def
      clearCachedDimensions_def emit_def style_write_def log_def)

lemma afterLeave_eq:
  "afterLeave el w =
     w\<lparr>cachedStyles := [],
       dom := (dom w)(el := (dom w el)\<lparr>style :=
                assign_all (map (\<lambda>k. (k, [])) (object_keys (cachedStyles w)))
                  ((style (dom w el))(''overflow'' := [], ''transition'' := []))\<rparr>),
       effects := effects w @
         [StyleSet el ''overflow'' [], StyleSet el ''transition'' []] @
         map (\<lambda>k. StyleSet el k []) (object_keys (cachedStyles w)) @
         [Emit ''after-leave'' el None]\<rparr>"
  by (simp add: afterLeave_def Let_def unsetDimensions_eq unsetOverflow_def unsetTransition_def
      clearCachedDimensions_def emit_def style_write_def log_def)

section \<open>Evaluations used by the examples\<close>

lemma string_of_int_300: "string_of_int 300 = ''300''"
  by code_simp

lemma string_of_nat_120: "string_of_nat 120 = ''120''"
  by code_simp

lemma string_of_nat_200: "string_of_nat 200 = ''200''"
  by code_simp

section \<open>Lemmas on the decimal numerals\<close>

lemma of_char_digit_char: "n < 10 \<Longrightarrow> (of_char (digit_char n) :: nat) = 48 + n"
  by (simp add: digit_char_def)

lemma decimal_value_snoc:
  "decimal_value (s @ [c]) = 10 * decimal_value s + ((of_char c :: nat) - 48)"
  by (simp add: decimal_value_def)

lemma decimal_value_string_of_nat: "decimal_value (string_of_nat n) = n"
proof (induction n rule: string_of_nat.induct)
  case (1 n)
  show ?case
  proof (cases "n < 10")
    case True
    then show ?thesis
      by (simp add: string_of_nat.simps [of n] decimal_value_def of_char_digit_char)
  next
    case False
    then have "decimal_value (string_of_nat n)
        = 10 * decimal_value (string_of_nat (n div 10)) + ((of_char (digit_char (n mod 10)) :: nat) - 48)"
      by (simp add: string_of_nat.simps [of n] decimal_value_snoc)
    also have "\<dots> = 10 * (n div 10) + n mod 10"
      using False by (simp add: "1.IH" of_char_digit_char)
    finally show ?thesis by simp
  qed
qed

lemma digits_string_of_nat: "list_all is_digit (string_of_nat n)"
proof (induction n rule: string_of_nat.induct)
  case (1 n)
  show ?case
  proof (cases "n < 10")
    case True
    then show ?thesis
      by (simp add: string_of_nat.simps [of n] is_digit_def of_char_digit_char)
  next
    case False
    then show ?thesis
      using "1.IH" by (simp add: string_of_nat.simps [of n] is_digit_def of_char_digit_char)
  qed
qed

lemma string_of_nat_not_Nil: "string_of_nat n \<noteq> []"
  by (simp add: string_of_nat.simps [of n])

lemma string_of_nat_leading: "n \<noteq> 0 \<Longrightarrow> hd (string_of_nat n) \<noteq> CHR ''0''"
proof (induction n rule: string_of_nat.induct)
  case (1 n)
  show ?case
  proof (cases "n < 10")
    case True
    have "(of_char (digit_char n) :: nat) \<noteq> of_char CHR ''0''"
      using True "1.prems" by (simp add: of_char_digit_char)
    then have "digit_char n \<noteq> CHR ''0''" by auto
    then show ?thesis
      using True by (simp add: string_of_nat.simps [of n])
  next
    case False
    then have "n div 10 \<noteq> 0" by simp
    then have "hd (string_of_nat (n div 10)) \<noteq> CHR ''0''"
      using False "1.IH" by simp
    then show ?thesis
      using False by (simp add: string_of_nat.simps [of n] string_of_nat_not_Nil)
  qed
qed

lemma string_of_nat_0: "string_of_nat 0 = ''0''"
  by code_simp

section \<open>The transition declaration\<close>

text \<open>
  Claim C4.  The computed property \<open>transition\<close> is the cached keys' tokens joined with
  a comma and a space, one token per key in the order of the keys, each token the
  kebab-case property name, a space, the duration as the template literal renders it,
  \<open>ms\<close>, a space, and the easing.  The name is \<open>kebab_case\<close> of the key, the
  transform as the specification words it, for every cache in which no key both begins
  with a hyphen and contains a capital; the six property names of \<open>CachedStyles\<close> are
  such keys.  (On a string that begins with a hyphen and contains a capital the method
  drops that hyphen as well, see \<open>convertToCssProperty_kebab_case\<close>; no key of the cache
  is such a string.)  The duration is rendered by Number-to-string: for a safe integer
  that is its decimal numeral, with a minus sign when it is negative, and the decimal
  numeral of \<open>n\<close> is the string of digits without a leading zero that stands for
  \<open>n\<close>; for any other Number it is what the platform's Number-to-string gives.
\<close>

theorem transition_declaration:
  assumes "\<forall>k \<in> set (object_keys (cachedStyles w)). \<not> (take 1 k = ''-'' \<and> match_upper k \<noteq> [])"
  shows "transition w =
           join '', ''
             (map (\<lambda>k. kebab_case k @ '' '' @ number_to_string w (duration w) @ ''ms '' @ easing w)
                (object_keys (cachedStyles w)))
         \<and> (\<forall>d. duration w = Integer d \<and> safe_integer d \<longrightarrow>
               number_to_string w (duration w) =
                 (if d < 0 then CHR ''-'' # string_of_nat (nat (- d)) else string_of_nat (nat d)))
         \<and> (\<forall>n. decimal_value (string_of_nat n) = n
                \<and> list_all is_digit (string_of_nat n)
                \<and> string_of_nat n \<noteq> []
                \<and> (n = 0 \<or> hd (string_of_nat n) \<noteq> CHR ''0''))
         \<and> string_of_nat 0 = ''0''
         \<and> (\<forall>d. duration w = Integer d \<and> \<not> safe_integer d \<longrightarrow>
               number_to_string w (duration w) = number_text w (duration w))
         \<and> (\<forall>k. duration w = NonInteger k \<longrightarrow>
               number_to_string w (duration w) = number_text w (duration w))"
proof -
  have "map (\<lambda>k. convertToCssProperty k @ '' '' @ number_to_string w (duration w) @ ''ms '' @ easing w)
          (object_keys (cachedStyles w))
      = map (\<lambda>k. kebab_case k @ '' '' @ number_to_string w (duration w) @ ''ms '' @ easing w)
          (object_keys (cachedStyles w))"
  proof (rule map_cong [OF refl])
    fix k assume "k \<in> set (object_keys (cachedStyles w))"
    with assms have "\<not> (take 1 k = ''-'' \<and> match_upper k \<noteq> [])" by blast
    then have "convertToCssProperty k = kebab_case k"
      by (auto simp: convertToCssProperty_kebab_case)
    then show "convertToCssProperty k @ '' '' @ number_to_string w (duration w) @ ''ms '' @ easing w
        = kebab_case k @ '' '' @ number_to_string w (duration w) @ ''ms '' @ easing w"
      by simp
  qed
  then have 1: "transition w =
           join '', ''
             (map (\<lambda>k. kebab_case k @ '' '' @ number_to_string w (duration w) @ ''ms '' @ easing w)
                (object_keys (cachedStyles w)))"
    by (simp only: transition_def)
  have 2: "\<forall>d. duration w = Integer d \<and> safe_integer d \<longrightarrow>
               number_to_string w (duration w) =
                 (if d < 0 then CHR ''-'' # string_of_nat (nat (- d)) else string_of_nat (nat d))"
    by (simp add: number_to_string_def string_of_int_def)
  have 3: "\<forall>n. decimal_value (string_of_nat n) = n
                \<and> list_all is_digit (string_of_nat n)
                \<and> string_of_nat n \<noteq> []
                \<and> (n = 0 \<or> hd (string_of_nat n) \<noteq> CHR ''0'')"
    using decimal_value_string_of_nat digits_string_of_nat string_of_nat_not_Nil
      string_of_nat_leading by blast
  have 4: "\<forall>d. duration w = Integer d \<and> \<not> safe_integer d \<longrightarrow>
               number_to_string w (duration w) = number_text w (duration w)"
    by (simp add: number_to_string_def)
  have 5: "\<forall>k. duration w = NonInteger k \<longrightarrow>
               number_to_string w (duration w) = number_text w (duration w)"
    by (simp add: number_to_string_def)
  from 1 2 3 string_of_nat_0 4 5 show ?thesis by blast
qed

text \<open>
  The sample instance with the cache of the specification's scenario: three keys, none
  beginning with a hyphen.  The declaration for the default duration of 300, for 1500,
  for \<open>-5\<close>, and for \<open>10\<^sup>2\<^sup>1\<close>, which is not a safe integer and which the sample
  platform renders as \<open>1e+21\<close>.
\<close>

theorem transition_declaration_witness:
  "object_keys (cachedStyles (sample_world\<lparr>cachedStyles := sample_cache\<rparr>))
     = [''height'', ''paddingTop'', ''paddingBottom'']
   \<and> map (take 1) [''height'', ''paddingTop'', ''paddingBottom''] = [''h'', ''p'', ''p'']
   \<and> duration sample_world = Integer 300
   \<and> safe_integer 300 \<and> safe_integer 1500 \<and> safe_integer (- 5)
   \<and> \<not> safe_integer (10 ^ 21)
   \<and> transition (sample_world\<lparr>cachedStyles := sample_cache\<rparr>)
     = ''height 300ms ease-in, padding-top 300ms ease-in, padding-bottom 300ms ease-in''
   \<and> transition (sample_world\<lparr>cachedStyles := sample_cache, duration := Integer 1500\<rparr>)
     = ''height 1500ms ease-in, padding-top 1500ms ease-in, padding-bottom 1500ms ease-in''
   \<and> transition (sample_world\<lparr>cachedStyles := sample_cache, duration := Integer (- 5)\<rparr>)
     = ''height -5ms ease-in, padding-top -5ms ease-in, padding-bottom -5ms ease-in''
   \<and> transition (sample_world\<lparr>cachedStyles := sample_cache, duration := Integer (10 ^ 21)\<rparr>)
     = ''height 1e+21ms ease-in, padding-top 1e+21ms ease-in, padding-bottom 1e+21ms ease-in''
   \<and> number_to_string (sample_world\<lparr>cachedStyles := sample_cache\<rparr>)
       (duration (sample_world\<lparr>cachedStyles := sample_cache\<rparr>)) = ''300''
   \<and> number_to_string (sample_world\<lparr>cachedStyles := sample_cache, duration := Integer (10 ^ 21)\<rparr>)
       (duration (sample_world\<lparr>cachedStyles := sample_cache, duration := Integer (10 ^ 21)\<rparr>))
     = ''1e+21''
   \<and> decimal_value ''1500'' = 1500"
proof -
  let ?a = "sample_world\<lparr>cachedStyles := sample_cache\<rparr>"
  let ?b = "sample_world\<lparr>cachedStyles := sample_cache, duration := Integer 1500\<rparr>"
  let ?c = "sample_world\<lparr>cachedStyles := sample_cache, duration := Integer (- 5)\<rparr>"
  let ?d = "sample_world\<lparr>cachedStyles := sample_cache, duration := Integer (10 ^ 21)\<rparr>"
  have keys: "object_keys (cachedStyles ?a) = [''height'', ''paddingTop'', ''paddingBottom'']"
    by (simp add: sample_cache_def object_keys_def)
  have heads: "map (take 1) [''height'', ''paddingTop'', ''paddingBottom''] = [''h'', ''p'', ''p'']"
    by simp
  have dur: "duration sample_world = Integer 300"
    by (simp add: sample_world_def)
  have safe: "safe_integer 300" "safe_integer 1500" "safe_integer (- 5)" "\<not> safe_integer (10 ^ 21)"
    by (simp_all add: safe_integer_def)
  have hyp: "\<forall>k \<in> set (object_keys (cachedStyles v)). \<not> (take 1 k = ''-'' \<and> match_upper k \<noteq> [])"
    if "cachedStyles v = sample_cache" for v
    using that by (simp add: sample_cache_def object_keys_def)
  have ha: "cachedStyles ?a = sample_cache" and hb: "cachedStyles ?b = sample_cache"
    and hc: "cachedStyles ?c = sample_cache" and hd: "cachedStyles ?d = sample_cache"
    by simp_all
  note ta = transition_declaration [OF hyp [OF ha]]
  note tb = transition_declaration [OF hyp [OF hb]]
  note tc = transition_declaration [OF hyp [OF hc]]
  note td = transition_declaration [OF hyp [OF hd]]
  have na: "number_to_string ?a (duration ?a) = ''300''"
  proof -
    have "duration ?a = Integer 300 \<and> safe_integer 300" using dur safe by simp
    with ta have "number_to_string ?a (duration ?a)
        = (if (300::int) < 0 then CHR ''-'' # string_of_nat (nat (- 300)) else string_of_nat (nat 300))"
      by blast
    also have "\<dots> = ''300''" by code_simp
    finally show ?thesis .
  qed
  have nb: "number_to_string ?b (duration ?b) = ''1500''"
  proof -
    have "duration ?b = Integer 1500 \<and> safe_integer 1500" using safe by simp
    with tb have "number_to_string ?b (duration ?b)
        = (if (1500::int) < 0 then CHR ''-'' # string_of_nat (nat (- 1500)) else string_of_nat (nat 1500))"
      by blast
    also have "\<dots> = ''1500''" by code_simp
    finally show ?thesis .
  qed
  have nc: "number_to_string ?c (duration ?c) = ''-5''"
  proof -
    have "duration ?c = Integer (- 5) \<and> safe_integer (- 5)" using safe by simp
    with tc have "number_to_string ?c (duration ?c)
        = (if (- 5::int) < 0 then CHR ''-'' # string_of_nat (nat (- (- 5))) else string_of_nat (nat (- 5)))"
      by blast
    also have "\<dots> = ''-5''" by code_simp
    finally show ?thesis .
  qed
  have nd: "number_to_string ?d (duration ?d) = ''1e+21''"
  proof -
    have "duration ?d = Integer (10 ^ 21) \<and> \<not> safe_integer (10 ^ 21)" using safe by simp
    with td have "number_to_string ?d (duration ?d) = number_text ?d (duration ?d)"
      by blast
    also have "\<dots> = ''1e+21''" by (simp add: sample_world_def)
    finally show ?thesis .
  qed
  have a: "transition ?a
      = ''height 300ms ease-in, padding-top 300ms ease-in, padding-bottom 300ms ease-in''"
  proof -
    have "join '', ''
             (map (\<lambda>k. kebab_case k @ '' '' @ number_to_string ?a (duration ?a) @ ''ms '' @ easing ?a)
                (object_keys (cachedStyles ?a)))
        = ''height 300ms ease-in, padding-top 300ms ease-in, padding-bottom 300ms ease-in''"
      by code_simp
    with ta show ?thesis by (simp only:)
  qed
  have b: "transition ?b
      = ''height 1500ms ease-in, padding-top 1500ms ease-in, padding-bottom 1500ms ease-in''"
  proof -
    have "join '', ''
             (map (\<lambda>k. kebab_case k @ '' '' @ number_to_string ?b (duration ?b) @ ''ms '' @ easing ?b)
                (object_keys (cachedStyles ?b)))
        = ''height 1500ms ease-in, padding-top 1500ms ease-in, padding-bottom 1500ms ease-in''"
      by code_simp
    with tb show ?thesis by (simp only:)
  qed
  have c: "transition ?c
      = ''height -5ms ease-in, padding-top -5ms ease-in, padding-bottom -5ms ease-in''"
  proof -
    have "join '', ''
             (map (\<lambda>k. kebab_case k @ '' '' @ number_to_string ?c (duration ?c) @ ''ms '' @ easing ?c)
                (object_keys (cachedStyles ?c)))
        = ''height -5ms ease-in, padding-top -5ms ease-in, padding-bottom -5ms ease-in''"
      by code_simp
    with tc show ?thesis by (simp only:)
  qed
  have d: "transition ?d
      = ''height 1e+21ms ease-in, padding-top 1e+21ms ease-in, padding-bottom 1e+21ms ease-in''"
  proof -
    have "join '', ''
             (map (\<lambda>k. kebab_case k @ '' '' @ number_to_string ?d (duration ?d) @ ''ms '' @ easing ?d)
                (object_keys (cachedStyles ?d)))
        = ''height 1e+21ms ease-in, padding-top 1e+21ms ease-in, padding-bottom 1e+21ms ease-in''"
      by code_simp
    with td show ?thesis by (simp only:)
  qed
  have "decimal_value (string_of_nat 1500) = 1500" using ta by blast
  moreover have "string_of_nat 1500 = ''1500''" by code_simp
  ultimately have v: "decimal_value ''1500'' = 1500" by simp
  from keys heads dur safe na nb nc nd a b c d v show ?thesis by blast
qed

section \<open>The enter and leave sequences\<close>

lemma object_keys_Nil [simp]: "object_keys [] = []"
  by (simp add: object_keys_def)

lemma object_keys_Cons [simp]: "object_keys ((k, v) # c) = k # object_keys c"
  by (simp add: object_keys_def)


section \<open>The settle hooks\<close>

text \<open>
  Claim C10.  With an empty cache the settle hooks write \<open>overflow\<close> and
  \<open>transition\<close> only, so the document afterwards is the one before with these two
  inline properties of the element not set.  In any state, running a settle hook a second
  time leaves the document and the cache as the first run left them.
\<close>

theorem settle_idempotent:
  "(cachedStyles w = [] \<longrightarrow>
      dom (afterEnter el w) =
        (dom w)(el := (dom w el)\<lparr>style := (style (dom w el))(''overflow'' := [], ''transition'' := [])\<rparr>)
      \<and> effects (afterEnter el w) =
        effects w @ [StyleSet el ''overflow'' [], StyleSet el ''transition'' [],
                     Emit ''after-enter'' el None]
      \<and> dom (afterLeave el w) =
        (dom w)(el := (dom w el)\<lparr>style := (style (dom w el))(''overflow'' := [], ''transition'' := [])\<rparr>)
      \<and> effects (afterLeave el w) =
        effects w @ [StyleSet el ''overflow'' [], StyleSet el ''transition'' [],
                     Emit ''after-leave'' el None])
   \<and> dom (afterEnter el (afterEnter el w)) = dom (afterEnter el w)
   \<and> cachedStyles (afterEnter el (afterEnter el w)) = cachedStyles (afterEnter el w)
   \<and> dom (afterLeave el (afterLeave el w)) = dom (afterLeave el w)
   \<and> cachedStyles (afterLeave el (afterLeave el w)) = cachedStyles (afterLeave el w)"
proof -
  have twice: "\<And>ks st. (assign_all (map (\<lambda>k. (k, [])) ks) (st(''overflow'' := [], ''transition'' := [])))
      (''overflow'' := [], ''transition'' := [])
    = assign_all (map (\<lambda>k. (k, [])) ks) (st(''overflow'' := [], ''transition'' := []))"
    by (rule ext) (simp add: assign_all_apply)
  show ?thesis
    by (simp add: afterEnter_eq afterLeave_eq twice)
qed

theorem settle_idempotent_witness:
  "cachedStyles sample_world = []
   \<and> dom (afterEnter 0 sample_world) =
        (dom sample_world)(0 := (dom sample_world 0)
           \<lparr>style := (style (dom sample_world 0))(''overflow'' := [], ''transition'' := [])\<rparr>)
   \<and> effects (afterEnter 0 sample_world) =
        effects sample_world @ [StyleSet 0 ''overflow'' [], StyleSet 0 ''transition'' [],
                     Emit ''after-enter'' 0 None]"
proof -
  have h: "cachedStyles sample_world = []"
    by (simp add: sample_world_def)
  from settle_idempotent [of sample_world 0] h
  have "dom (afterEnter 0 sample_world) =
        (dom sample_world)(0 := (dom sample_world 0)
           \<lparr>style := (style (dom sample_world 0))(''overflow'' := [], ''transition'' := [])\<rparr>)
      \<and> effects (afterEnter 0 sample_world) =
        effects sample_world @ [StyleSet 0 ''overflow'' [], StyleSet 0 ''transition'' [],
                     Emit ''after-enter'' 0 None]"
    by blast
  with h show ?thesis by blast
qed

section \<open>The probe\<close>

text \<open>
  Claim C2.  With a cache that is not empty \<open>detectAndCacheDimensions\<close> returns the
  world it was given: the cache, the document and the log are the same, so nothing was
  read and nothing written.  Called twice in a row it leaves the same cache both times,
  and when the first call filled the cache the second changes nothing at all.  The same
  holds for a second call in any later world that still has the cache of the first call
  and the same dimension, whatever happened to the element in between.
\<close>

theorem probe_idempotent:
  "(cachedStyles w \<noteq> [] \<longrightarrow> detectAndCacheDimensions el w = w)
   \<and> cachedStyles (detectAndCacheDimensions el' (detectAndCacheDimensions el w))
       = cachedStyles (detectAndCacheDimensions el w)
   \<and> (cachedStyles (detectAndCacheDimensions el w) \<noteq> [] \<longrightarrow>
        detectAndCacheDimensions el' (detectAndCacheDimensions el w)
          = detectAndCacheDimensions el w)
   \<and> (cachedStyles w' = cachedStyles (detectAndCacheDimensions el w) \<and> dimension w' = dimension w
        \<longrightarrow> cachedStyles (detectAndCacheDimensions el' w')
          = cachedStyles (detectAndCacheDimensions el w))"
proof -
  have later: "cachedStyles (detectAndCacheDimensions el' v) = cachedStyles (detectAndCacheDimensions el w)"
    if v: "cachedStyles v = cachedStyles (detectAndCacheDimensions el w)" "dimension v = dimension w"
    for v
  proof (cases "cachedStyles (detectAndCacheDimensions el w) = []")
    case False
    with v show ?thesis by (simp add: detectAndCacheDimensions_cached)
  next
    case True
    have empty: "cachedStyles w = []"
      using True by (cases "cachedStyles w = []") (simp_all add: detectAndCacheDimensions_cached)
    have "object_keys (cachedStyles (detectAndCacheDimensions el w)) = []"
      using True by simp
    then have other: "dimension w \<noteq> ''height''" "dimension w \<noteq> ''width''"
      by (auto simp: detectAndCacheDimensions_keys [OF empty] split: if_splits)
    have "cachedStyles v = []" "dimension v \<noteq> ''height''" "dimension v \<noteq> ''width''"
      using v True other by simp_all
    then show ?thesis
      using True by (simp add: detectAndCacheDimensions_other)
  qed
  have twice: "cachedStyles (detectAndCacheDimensions el' (detectAndCacheDimensions el w))
       = cachedStyles (detectAndCacheDimensions el w)"
    by (rule later) simp_all
  show ?thesis
    using later [of w'] twice by (simp add: detectAndCacheDimensions_cached)
qed

text \<open>
  The sample instance: the first call caches the natural size of the sample element; the
  second call comes after the size and the paddings have been set to \<open>0\<close>, and leaves
  that cache.
\<close>

theorem probe_idempotent_witness:
  "cachedStyles (detectAndCacheDimensions 0 sample_world) \<noteq> []
   \<and> cachedStyles (setClosedDimensions 0 (detectAndCacheDimensions 0 sample_world))
       = cachedStyles (detectAndCacheDimensions 0 sample_world)
   \<and> dimension (setClosedDimensions 0 (detectAndCacheDimensions 0 sample_world))
       = dimension sample_world
   \<and> detectAndCacheDimensions 0 (detectAndCacheDimensions 0 sample_world)
       = detectAndCacheDimensions 0 sample_world
   \<and> cachedStyles (detectAndCacheDimensions 0
         (setClosedDimensions 0 (detectAndCacheDimensions 0 sample_world)))
       = cachedStyles (detectAndCacheDimensions 0 sample_world)"
proof -
  let ?w1 = "detectAndCacheDimensions 0 sample_world"
  have e: "cachedStyles sample_world = []" and d: "dimension sample_world = ''height''"
    by (simp_all add: sample_world_def)
  have 1: "cachedStyles ?w1 \<noteq> []"
    by (simp add: detectAndCacheDimensions_height [OF e d])
  have 2: "cachedStyles (setClosedDimensions 0 ?w1) = cachedStyles ?w1"
    by (simp add: setClosedDimensions_eq)
  have 3: "dimension (setClosedDimensions 0 ?w1) = dimension sample_world"
    by (simp add: setClosedDimensions_eq)
  note p = probe_idempotent [where w = sample_world and el = 0 and el' = 0
      and w' = "setClosedDimensions 0 ?w1"]
  note q = probe_idempotent [where w = ?w1 and el = 0]
  from q 1 have 4: "detectAndCacheDimensions 0 ?w1 = ?w1" by blast
  from p 2 3 have 5: "cachedStyles (detectAndCacheDimensions 0 (setClosedDimensions 0 ?w1))
       = cachedStyles ?w1" by blast
  from 1 2 3 4 5 show ?thesis by blast
qed

text \<open>
  Claim C5.  With an empty cache, \<open>detectAndCacheDimensions\<close> reads the inline
  \<open>visibility\<close> and \<open>display\<close>, sets \<open>visibility\<close> to \<open>hidden\<close> and clears the
  inline \<open>display\<close> (so no inline \<open>display\<close> keeps the element out of the layout),
  measures, and writes the two values it read back.  The document afterwards is the
  document before: every inline property of the element, \<open>visibility\<close> and
  \<open>display\<close> included, is as it was, and the only writes were to these two.  For the
  height axis the cache holds the laid-out \<open>offsetHeight\<close> (measured under the hidden
  style) followed by \<open>px\<close>, and for each padding the inline value when it is not empty
  and otherwise the computed value, which is read only then; likewise for the width axis.
  For any other dimension nothing is measured.
\<close>

theorem probe_measures_and_restores:
  "cachedStyles w = [] \<longrightarrow>
   (let e = dom w el;
        st = style e;
        m = st(''visibility'' := ''hidden'', ''display'' := []);
        w' = detectAndCacheDimensions el w
    in dom w' = dom w
     \<and> style (dom (measuring w el) el) = m
     \<and> (dimension w = ''height'' \<longrightarrow>
          cachedStyles w' =
            [(''height'', string_of_nat (offsetHeight e m) @ ''px''),
             (''paddingTop'',
                if st ''paddingTop'' \<noteq> [] then st ''paddingTop''
                else computedStyle e m ''padding-top''),
             (''paddingBottom'',
                if st ''paddingBottom'' \<noteq> [] then st ''paddingBottom''
                else computedStyle e m ''padding-bottom'')]
          \<and> effects w' = effects w @
            [StyleGet el ''visibility'', StyleGet el ''display'',
             StyleSet el ''visibility'' ''hidden'', StyleSet el ''display'' [],
             OffsetGet el ''offsetHeight'', StyleGet el ''paddingTop''] @
            (if st ''paddingTop'' \<noteq> [] then [] else [ComputedGet el ''padding-top'']) @
            [StyleGet el ''paddingBottom''] @
            (if st ''paddingBottom'' \<noteq> [] then [] else [ComputedGet el ''padding-bottom'']) @
            [StyleSet el ''visibility'' (st ''visibility''),
             StyleSet el ''display'' (st ''display'')])
     \<and> (dimension w = ''width'' \<longrightarrow>
          cachedStyles w' =
            [(''width'', string_of_nat (offsetWidth e m) @ ''px''),
             (''paddingLeft'',
                if st ''paddingLeft'' \<noteq> [] then st ''paddingLeft''
                else computedStyle e m ''padding-left''),
             (''paddingRight'',
                if st ''paddingRight'' \<noteq> [] then st ''paddingRight''
                else computedStyle e m ''padding-right'')]
          \<and> effects w' = effects w @
            [StyleGet el ''visibility'', StyleGet el ''display'',
             StyleSet el ''visibility'' ''hidden'', StyleSet el ''display'' [],
             OffsetGet el ''offsetWidth'', StyleGet el ''paddingLeft''] @
            (if st ''paddingLeft'' \<noteq> [] then [] else [ComputedGet el ''padding-left'']) @
            [StyleGet el ''paddingRight''] @
            (if st ''paddingRight'' \<noteq> [] then [] else [ComputedGet el ''padding-right'']) @
            [StyleSet el ''visibility'' (st ''visibility''),
             StyleSet el ''display'' (st ''display'')])
     \<and> (dimension w \<noteq> ''height'' \<and> dimension w \<noteq> ''width'' \<longrightarrow>
          cachedStyles w' = []
          \<and> effects w' = effects w @
            [StyleGet el ''visibility'', StyleGet el ''display'',
             StyleSet el ''visibility'' ''hidden'', StyleSet el ''display'' [],
             StyleSet el ''visibility'' (st ''visibility''),
             StyleSet el ''display'' (st ''display'')]))"
proof
  assume e: "cachedStyles w = []"
  have m: "style (dom (measuring w el) el)
      = (style (dom w el))(''visibility'' := ''hidden'', ''display'' := [])"
    by (simp add: measuring_def)
  have h: "dimension w = ''height'' \<Longrightarrow> detectAndCacheDimensions el w = w\<lparr>cachedStyles :=
         [(''height'', string_of_nat (offsetHeight (dom w el)
              ((style (dom w el))(''visibility'' := ''hidden'', ''display'' := []))) @ ''px''),
          (''paddingTop'',
             if style (dom w el) ''paddingTop'' \<noteq> [] then style (dom w el) ''paddingTop''
             else computedStyle (dom w el)
               ((style (dom w el))(''visibility'' := ''hidden'', ''display'' := [])) ''padding-top''),
          (''paddingBottom'',
             if style (dom w el) ''paddingBottom'' \<noteq> [] then style (dom w el) ''paddingBottom''
             else computedStyle (dom w el)
               ((style (dom w el))(''visibility'' := ''hidden'', ''display'' := [])) ''padding-bottom'')],
       effects := effects w @
         [StyleGet el ''visibility'', StyleGet el ''display'',
          StyleSet el ''visibility'' ''hidden'', StyleSet el ''display'' [],
          OffsetGet el ''offsetHeight'', StyleGet el ''paddingTop''] @
         (if style (dom w el) ''paddingTop'' \<noteq> [] then [] else [ComputedGet el ''padding-top'']) @
         [StyleGet el ''paddingBottom''] @
         (if style (dom w el) ''paddingBottom'' \<noteq> [] then [] else [ComputedGet el ''padding-bottom'']) @
         [StyleSet el ''visibility'' (style (dom w el) ''visibility''),
          StyleSet el ''display'' (style (dom w el) ''display'')]\<rparr>"
    by (rule detectAndCacheDimensions_height [OF e])
  have wd: "dimension w = ''width'' \<Longrightarrow> detectAndCacheDimensions el w = w\<lparr>cachedStyles :=
         [(''width'', string_of_nat (offsetWidth (dom w el)
              ((style (dom w el))(''visibility'' := ''hidden'', ''display'' := []))) @ ''px''),
          (''paddingLeft'',
             if style (dom w el) ''paddingLeft'' \<noteq> [] then style (dom w el) ''paddingLeft''
             else computedStyle (dom w el)
               ((style (dom w el))(''visibility'' := ''hidden'', ''display'' := [])) ''padding-left''),
          (''paddingRight'',
             if style (dom w el) ''paddingRight'' \<noteq> [] then style (dom w el) ''paddingRight''
             else computedStyle (dom w el)
               ((style (dom w el))(''visibility'' := ''hidden'', ''display'' := [])) ''padding-right'')],
       effects := effects w @
         [StyleGet el ''visibility'', StyleGet el ''display'',
          StyleSet el ''visibility'' ''hidden'', StyleSet el ''display'' [],
          OffsetGet el ''offsetWidth'', StyleGet el ''paddingLeft''] @
         (if style (dom w el) ''paddingLeft'' \<noteq> [] then [] else [ComputedGet el ''padding-left'']) @
         [StyleGet el ''paddingRight''] @
         (if style (dom w el) ''paddingRight'' \<noteq> [] then [] else [ComputedGet el ''padding-right'']) @
         [StyleSet el ''visibility'' (style (dom w el) ''visibility''),
          StyleSet el ''display'' (style (dom w el) ''display'')]\<rparr>"
    by (rule detectAndCacheDimensions_width [OF e])
  have o: "dimension w \<noteq> ''height'' \<Longrightarrow> dimension w \<noteq> ''width'' \<Longrightarrow>
      detectAndCacheDimensions el w = w\<lparr>effects := effects w @
         [StyleGet el ''visibility'', StyleGet el ''display'',
          StyleSet el ''visibility'' ''hidden'', StyleSet el ''display'' [],
          StyleSet el ''visibility'' (style (dom w el) ''visibility''),
          StyleSet el ''display'' (style (dom w el) ''display'')]\<rparr>"
    by (rule detectAndCacheDimensions_other [OF e])
  show "let e = dom w el; st = style e;
        m = st(''visibility'' := ''hidden'', ''display'' := []);
        w' = detectAndCacheDimensions el w
    in dom w' = dom w
     \<and> style (dom (measuring w el) el) = m
     \<and> (dimension w = ''height'' \<longrightarrow>
          cachedStyles w' =
            [(''height'', string_of_nat (offsetHeight e m) @ ''px''),
             (''paddingTop'',
                if st ''paddingTop'' \<noteq> [] then st ''paddingTop''
                else computedStyle e m ''padding-top''),
             (''paddingBottom'',
                if st ''paddingBottom'' \<noteq> [] then st ''paddingBottom''
                else computedStyle e m ''padding-bottom'')]
          \<and> effects w' = effects w @
            [StyleGet el ''visibility'', StyleGet el ''display'',
             StyleSet el ''visibility'' ''hidden'', StyleSet el ''display'' [],
             OffsetGet el ''offsetHeight'', StyleGet el ''paddingTop''] @
            (if st ''paddingTop'' \<noteq> [] then [] else [ComputedGet el ''padding-top'']) @
            [StyleGet el ''paddingBottom''] @
            (if st ''paddingBottom'' \<noteq> [] then [] else [ComputedGet el ''padding-bottom'']) @
            [StyleSet el ''visibility'' (st ''visibility''),
             StyleSet el ''display'' (st ''display'')])
     \<and> (dimension w = ''width'' \<longrightarrow>
          cachedStyles w' =
            [(''width'', string_of_nat (offsetWidth e m) @ ''px''),
             (''paddingLeft'',
                if st ''paddingLeft'' \<noteq> [] then st ''paddingLeft''
                else computedStyle e m ''padding-left''),
             (''paddingRight'',
                if st ''paddingRight'' \<noteq> [] then st ''paddingRight''
                else computedStyle e m ''padding-right'')]
          \<and> effects w' = effects w @
            [StyleGet el ''visibility'', StyleGet el ''display'',
             StyleSet el ''visibility'' ''hidden'', StyleSet el ''display'' [],
             OffsetGet el ''offsetWidth'', StyleGet el ''paddingLeft''] @
            (if st ''paddingLeft'' \<noteq> [] then [] else [ComputedGet el ''padding-left'']) @
            [StyleGet el ''paddingRight''] @
            (if st ''paddingRight'' \<noteq> [] then [] else [ComputedGet el ''padding-right'']) @
            [StyleSet el ''visibility'' (st ''visibility''),
             StyleSet el ''display'' (st ''display'')])
     \<and> (dimension w \<noteq> ''height'' \<and> dimension w \<noteq> ''width'' \<longrightarrow>
          cachedStyles w' = []
          \<and> effects w' = effects w @
            [StyleGet el ''visibility'', StyleGet el ''display'',
             StyleSet el ''visibility'' ''hidden'', StyleSet el ''display'' [],
             StyleSet el ''visibility'' (st ''visibility''),
             StyleSet el ''display'' (st ''display'')])"
    unfolding Let_def
    apply (intro conjI impI)
            apply simp
           apply (rule m)
          apply (simp add: h)
         apply (simp add: h)
        apply (simp add: wd)
       apply (simp add: wd)
      apply (simp add: o e)
     apply (simp add: o)
    done
qed
text \<open>
  An element hidden with an inline \<open>display: none\<close> and carrying an inline top padding:
  the probe measures it laid out, takes the inline top padding and the computed bottom
  padding, and puts \<open>display: none\<close> back.  With the dimension \<open>width\<close> it
  caches the width and the computed side paddings, and with \<open>depth\<close> nothing.
\<close>

theorem probe_measures_and_restores_witness:
  "cachedStyles hidden_world = []
   \<and> dimension hidden_world = ''height''
   \<and> dom (detectAndCacheDimensions 0 hidden_world) = dom hidden_world
   \<and> cachedStyles (detectAndCacheDimensions 0 hidden_world)
       = [(''height'', ''120px''), (''paddingTop'', ''4px''), (''paddingBottom'', ''5px'')]
   \<and> effects (detectAndCacheDimensions 0 hidden_world)
       = [StyleGet 0 ''visibility'', StyleGet 0 ''display'',
          StyleSet 0 ''visibility'' ''hidden'', StyleSet 0 ''display'' [],
          OffsetGet 0 ''offsetHeight'', StyleGet 0 ''paddingTop'',
          StyleGet 0 ''paddingBottom'', ComputedGet 0 ''padding-bottom'',
          StyleSet 0 ''visibility'' [], StyleSet 0 ''display'' ''none'']
   \<and> cachedStyles (detectAndCacheDimensions 0 (hidden_world\<lparr>dimension := ''width''\<rparr>))
       = [(''width'', ''200px''), (''paddingLeft'', ''0px''), (''paddingRight'', ''0px'')]
   \<and> cachedStyles (detectAndCacheDimensions 0 (hidden_world\<lparr>dimension := ''depth''\<rparr>)) = []
   \<and> effects (detectAndCacheDimensions 0 (hidden_world\<lparr>dimension := ''depth''\<rparr>))
       = [StyleGet 0 ''visibility'', StyleGet 0 ''display'',
          StyleSet 0 ''visibility'' ''hidden'', StyleSet 0 ''display'' [],
          StyleSet 0 ''visibility'' [], StyleSet 0 ''display'' ''none'']"
proof -
  have e: "cachedStyles hidden_world = []" and d: "dimension hidden_world = ''height''"
    by (simp_all add: hidden_world_def sample_world_def)
  have r: "dom (detectAndCacheDimensions 0 hidden_world) = dom hidden_world"
    using probe_measures_and_restores [of hidden_world 0] e by (simp add: Let_def)
  have c: "cachedStyles (detectAndCacheDimensions 0 hidden_world)
       = [(''height'', ''120px''), (''paddingTop'', ''4px''), (''paddingBottom'', ''5px'')]"
    using probe_measures_and_restores [of hidden_world 0]
    by (simp add: Let_def hidden_world_def sample_world_def sample_element_def string_of_nat_120)
  have f: "effects (detectAndCacheDimensions 0 hidden_world)
       = [StyleGet 0 ''visibility'', StyleGet 0 ''display'',
          StyleSet 0 ''visibility'' ''hidden'', StyleSet 0 ''display'' [],
          OffsetGet 0 ''offsetHeight'', StyleGet 0 ''paddingTop'',
          StyleGet 0 ''paddingBottom'', ComputedGet 0 ''padding-bottom'',
          StyleSet 0 ''visibility'' [], StyleSet 0 ''display'' ''none'']"
    using probe_measures_and_restores [of hidden_world 0]
    by (simp add: Let_def hidden_world_def sample_world_def sample_element_def)
  have cw: "cachedStyles (detectAndCacheDimensions 0 (hidden_world\<lparr>dimension := ''width''\<rparr>))
       = [(''width'', ''200px''), (''paddingLeft'', ''0px''), (''paddingRight'', ''0px'')]"
    using probe_measures_and_restores [of "hidden_world\<lparr>dimension := ''width''\<rparr>" 0]
    by (simp add: Let_def hidden_world_def sample_world_def sample_element_def string_of_nat_200)
  have co: "cachedStyles (detectAndCacheDimensions 0 (hidden_world\<lparr>dimension := ''depth''\<rparr>)) = []"
    using probe_measures_and_restores [of "hidden_world\<lparr>dimension := ''depth''\<rparr>" 0]
    by (simp add: Let_def hidden_world_def sample_world_def sample_element_def)
  have fo: "effects (detectAndCacheDimensions 0 (hidden_world\<lparr>dimension := ''depth''\<rparr>))
       = [StyleGet 0 ''visibility'', StyleGet 0 ''display'',
          StyleSet 0 ''visibility'' ''hidden'', StyleSet 0 ''display'' [],
          StyleSet 0 ''visibility'' [], StyleSet 0 ''display'' ''none'']"
    using probe_measures_and_restores [of "hidden_world\<lparr>dimension := ''depth''\<rparr>" 0]
    by (simp add: Let_def hidden_world_def sample_world_def sample_element_def)
  from e d r c f cw co fo show ?thesis by blast
qed

section \<open>The shape of the cache\<close>

lemma cache_shape_detect:
  "cache_shape w \<Longrightarrow> cache_shape (detectAndCacheDimensions el w)"
proof (cases "cachedStyles w = []")
  case False
  assume "cache_shape w"
  with False show ?thesis by (simp add: detectAndCacheDimensions_cached)
next
  case True
  show ?thesis
    by (simp add: cache_shape_def detectAndCacheDimensions_keys [OF True])
qed

lemma cache_shape_dispatch:
  assumes "cache_shape w"
  shows "cache_shape (dispatch h el cb w)"
proof -
  have e: "cache_shape (w\<lparr>effects := xs\<rparr>)" for xs
    using assms by (simp add: cache_shape_def)
  have d: "cache_shape (dispatch h el cb w)" if "h = Enter \<or> h = Leave"
    using that cache_shape_detect [OF assms, of el]
    by (auto simp: enter_eq leave_eq Let_def cache_shape_def)
  have a: "cache_shape (dispatch h el cb w)" if "h = AfterEnter \<or> h = AfterLeave"
    using that by (auto simp: afterEnter_eq afterLeave_eq cache_shape_def)
  show ?thesis
    using e d a
    by (cases h)
      (simp_all add: beforeAppear_def appear_def afterAppear_def appearCancelled_def
        beforeEnter_def enterCancelled_def beforeLeave_def leaveCancelled_def emit_def log_def)
qed

lemma cache_shape_set_dimension:
  "cache_shape w \<Longrightarrow> cache_shape (set_dimension d w)"
  by (simp add: set_dimension_def clearCachedDimensions_def cache_shape_def)

lemma reachable_cache_shape:
  "reachable w \<Longrightarrow> cache_shape w"
proof (induction rule: reachable.induct)
  case (created w)
  then show ?case by (simp add: cache_shape_def)
next
  case (hook w h el cb)
  then show ?case by (simp add: cache_shape_dispatch)
next
  case (watch w d)
  then show ?case by (simp add: cache_shape_set_dimension)
next
  case (environment w w')
  then show ?case by (simp add: cache_shape_def)
qed

text \<open>
  Claim C8.  In every reachable state the cache is empty, or the dimension is
  \<open>height\<close> and the keys are \<open>height\<close>, \<open>paddingTop\<close>, \<open>paddingBottom\<close>, or
  the dimension is \<open>width\<close> and the keys are \<open>width\<close>, \<open>paddingLeft\<close>,
  \<open>paddingRight\<close>; the shape of a cache that is not empty is the one of the current
  dimension, never the other.  Every hook and the watcher keep it so, and a new value of
  \<open>dimension\<close> leaves the cache empty.
\<close>

theorem cache_shape_invariant:
  "(reachable w \<longrightarrow>
      cache_shape w
      \<and> (object_keys (cachedStyles w) = [''height'', ''paddingTop'', ''paddingBottom'']
           \<longrightarrow> dimension w = ''height'')
      \<and> (object_keys (cachedStyles w) = [''width'', ''paddingLeft'', ''paddingRight'']
           \<longrightarrow> dimension w = ''width''))
   \<and> (cache_shape w \<longrightarrow>
        cache_shape (dispatch h el cb w) \<and> cache_shape (set_dimension d w))
   \<and> (d \<noteq> dimension w \<longrightarrow>
        cachedStyles (set_dimension d w) = [] \<and> dimension (set_dimension d w) = d)"
proof -
  have "cache_shape w \<Longrightarrow>
      (object_keys (cachedStyles w) = [''height'', ''paddingTop'', ''paddingBottom'']
           \<longrightarrow> dimension w = ''height'')
      \<and> (object_keys (cachedStyles w) = [''width'', ''paddingLeft'', ''paddingRight'']
           \<longrightarrow> dimension w = ''width'')"
    by (auto simp: cache_shape_def)
  then show ?thesis
    using reachable_cache_shape [of w] cache_shape_dispatch [of w h el cb]
      cache_shape_set_dimension [of w d]
    by (auto simp: set_dimension_def clearCachedDimensions_def)
qed

text \<open>
  The sample instance after \<open>enter\<close>: reachable, with the cache of the height axis;
  switching the dimension to \<open>width\<close> empties the cache, and a \<open>leave\<close> after
  that fills it with the keys of the width axis.
\<close>

theorem cache_shape_invariant_witness:
  "reachable (dispatch Enter 0 (Some 1) sample_world)
   \<and> object_keys (cachedStyles (dispatch Enter 0 (Some 1) sample_world))
       = [''height'', ''paddingTop'', ''paddingBottom'']
   \<and> cache_shape (dispatch Enter 0 (Some 1) sample_world)
   \<and> dimension (dispatch Enter 0 (Some 1) sample_world) = ''height''
   \<and> cache_shape (dispatch AfterEnter 0 None (dispatch Enter 0 (Some 1) sample_world))
   \<and> cache_shape (set_dimension ''width'' (dispatch Enter 0 (Some 1) sample_world))
   \<and> ''width'' \<noteq> dimension (dispatch Enter 0 (Some 1) sample_world)
   \<and> cachedStyles (set_dimension ''width'' (dispatch Enter 0 (Some 1) sample_world)) = []
   \<and> dimension (set_dimension ''width'' (dispatch Enter 0 (Some 1) sample_world)) = ''width''
   \<and> reachable (dispatch Leave 0 (Some 2)
         (set_dimension ''width'' (dispatch Enter 0 (Some 1) sample_world)))
   \<and> object_keys (cachedStyles (dispatch Leave 0 (Some 2)
         (set_dimension ''width'' (dispatch Enter 0 (Some 1) sample_world))))
       = [''width'', ''paddingLeft'', ''paddingRight'']
   \<and> dimension (dispatch Leave 0 (Some 2)
         (set_dimension ''width'' (dispatch Enter 0 (Some 1) sample_world))) = ''width''"
proof -
  let ?w = "dispatch Enter 0 (Some 1) sample_world"
  let ?v = "set_dimension ''width'' ?w"
  let ?u = "dispatch Leave 0 (Some 2) ?v"
  have e: "cachedStyles sample_world = []" and d: "dimension sample_world = ''height''"
    by (simp_all add: sample_world_def)
  have r: "reachable ?w"
    by (rule reachable.hook) (rule reachable.created [OF e])
  have k: "object_keys (cachedStyles ?w) = [''height'', ''paddingTop'', ''paddingBottom'']"
    by (simp add: enter_eq Let_def detectAndCacheDimensions_keys [OF e] d)
  have n: "''width'' \<noteq> dimension ?w"
    by (simp add: enter_eq Let_def d)
  note t = cache_shape_invariant [where w = ?w and h = AfterEnter and el = 0 and cb = None
      and d = "''width''"]
  from t r have 1: "cache_shape ?w" by blast
  from t r k have 2: "dimension ?w = ''height''" by blast
  from t 1 have 3: "cache_shape (dispatch AfterEnter 0 None ?w)" by blast
  from t 1 have 4: "cache_shape ?v" by blast
  from t n have 5: "cachedStyles ?v = []" by blast
  from t n have 6: "dimension ?v = ''width''" by blast
  have ru: "reachable ?u"
    by (rule reachable.hook) (rule reachable.watch [OF r])
  have kd: "object_keys (cachedStyles (detectAndCacheDimensions 0 ?v))
      = [''width'', ''paddingLeft'', ''paddingRight'']"
    unfolding detectAndCacheDimensions_keys [OF 5] 6 by simp
  have "cachedStyles (leave 0 (Some 2) ?v) = cachedStyles (detectAndCacheDimensions 0 ?v)"
    by (simp add: leave_eq Let_def)
  with kd have ku: "object_keys (cachedStyles ?u) = [''width'', ''paddingLeft'', ''paddingRight'']"
    by (simp only: dispatch.simps)
  from cache_shape_invariant [where w = ?u] ru ku have 7: "dimension ?u = ''width''" by blast
  from r k 1 2 3 4 n 5 6 ru ku 7 show ?thesis by blast
qed

section \<open>A phase and its settle hook\<close>








section \<open>An unsupported dimension\<close>


section \<open>The hooks re-emit\<close>

lemma emitted_detect:
  "filter is_emit (effects (detectAndCacheDimensions el w)) = filter is_emit (effects w)"
  using detectAndCacheDimensions_effects [of el w] by auto

lemma no_emit_writes:
  "filter is_emit (map (\<lambda>k. StyleSet el k (f k)) ks) = []"
  by (simp add: filter_empty_conv)

text \<open>
  Claim C7, as the code has it.  Each of the twelve hooks, called with the element and
  possibly a callback, emits exactly one event: the one named after the hook, with the
  same element.  \<open>enter\<close> and \<open>leave\<close> pass the callback on; the other ten methods
  are declared with the element alone and emit the element alone, whatever second
  argument they were called with.
\<close>

theorem hooks_reemit:
  "filter is_emit (effects (dispatch h el cb w)) =
     filter is_emit (effects w) @
     [Emit (hook_name h) el (if h = Enter \<or> h = Leave then cb else None)]"
  by (cases h)
    (simp_all add: beforeAppear_def appear_def afterAppear_def appearCancelled_def
      beforeEnter_def enterCancelled_def beforeLeave_def leaveCancelled_def emit_def log_def
      enter_eq leave_eq afterEnter_eq afterLeave_eq Let_def emitted_detect no_emit_writes)

text \<open>
  The claim as stated fails where a hook other than \<open>enter\<close> and \<open>leave\<close> is called
  with a callback: \<open>after-enter\<close> (one of the four hooks the specification calls
  driving) and \<open>appear\<close> (which the host calls with a callback) emit the element
  without it.
\<close>

theorem hooks_reemit_counterexample:
  "filter is_emit (effects (dispatch AfterEnter 0 (Some 1) sample_world))
     \<noteq> filter is_emit (effects sample_world) @ [Emit (hook_name AfterEnter) 0 (Some 1)]
   \<and> filter is_emit (effects (dispatch AfterEnter 0 (Some 1) sample_world))
     = [Emit ''after-enter'' 0 None]
   \<and> filter is_emit (effects (dispatch Appear 0 (Some 1) sample_world))
     \<noteq> filter is_emit (effects sample_world) @ [Emit (hook_name Appear) 0 (Some 1)]
   \<and> filter is_emit (effects (dispatch Appear 0 (Some 1) sample_world))
     = [Emit ''appear'' 0 None]"
  by (simp add: afterEnter_eq appear_def emit_def log_def sample_world_def no_emit_writes)

section \<open>Completion\<close>












end
